theory Spec2Isabelle
  imports Complex_Main "HOL-Library.Code_Target_Nat"
begin

section \<open>Numbers\<close>

text \<open>
  The program is TypeScript; every numeric value in it is a JavaScript number. The
  finite numbers are modelled by the rationals (\<^typ>\<open>rat\<close>) with exact arithmetic:
  the binary rounding of each IEEE operation is not part of the model. The operators
  of the source are kept one for one, so that each definition below can be read
  against the function of the same name.
\<close>

type_synonym number = rat

text \<open>\<^verbatim>\<open>x || d\<close> on numbers: \<^verbatim>\<open>0\<close> is the only falsy finite number.\<close>

definition or_number :: "number \<Rightarrow> number \<Rightarrow> number" where
  "or_number x d = (if x = 0 then d else x)"

text \<open>\<^verbatim>\<open>Math.round\<close> rounds to the nearest integer, ties towards plus infinity.\<close>

definition Math_round :: "number \<Rightarrow> int" where
  "Math_round x = \<lfloor>x + 1 / 2\<rfloor>"

definition Math_ceil :: "number \<Rightarrow> int" where
  "Math_ceil x = \<lceil>x\<rceil>"

definition Math_floor :: "number \<Rightarrow> int" where
  "Math_floor x = \<lfloor>x\<rfloor>"

text \<open>\<^verbatim>\<open>Number.EPSILON\<close> is \<open>2\<^sup>-\<^sup>5\<^sup>2\<close>.\<close>

definition Number_EPSILON :: number where
  "Number_EPSILON = 1 / 2 ^ 52"

text \<open>
  \<^verbatim>\<open>function isLeapYear(year) { return year % 400 === 0 || (year % 4 === 0 && year % 100 !== 0); }\<close>
  The year is an integer or \<^verbatim>\<open>NaN\<close> (\<open>None\<close>, the year of an invalid date), for which
  every comparison with 0 fails. On integers the sign of JavaScript's remainder does
  not change whether it is zero.
\<close>

definition isLeapYear :: "int option \<Rightarrow> bool" where
  "isLeapYear year =
     (case year of
        None \<Rightarrow> False
      | Some y \<Rightarrow> y mod 400 = 0 \<or> (y mod 4 = 0 \<and> y mod 100 \<noteq> 0))"

text \<open>
  \<^verbatim>\<open>function round2(n) { return Math.round((n + Number.EPSILON) * 100) / 100; }\<close>
\<close>

definition round2 :: "number \<Rightarrow> number" where
  "round2 n = of_int (Math_round ((n + Number_EPSILON) * 100)) / 100"

section \<open>Owner's policy premium\<close>

datatype OwnerPremiumChoice = Mid | Low | High

record OwnerPolicyRow =
  lo :: number
  hi :: number
  row_min :: number
  row_max :: number

text \<open>
  The rows of \<^verbatim>\<open>OWNER_POLICY_RANGE_CSV\<close>, one tuple per line of the text, in the order of
  the source; \<^verbatim>\<open>OWNER_POLICY_TABLE\<close> maps each line to a row object.
\<close>

definition OWNER_POLICY_RANGE_CSV :: "(number \<times> number \<times> number \<times> number) list" where
  "OWNER_POLICY_RANGE_CSV = [
       (0, 50000, 209, 220), (50001, 60000, 225, 263), (60001, 70000, 268, 306),
       (70001, 80000, 311, 349), (80001, 90000, 353, 392), (90001, 100000, 396, 435),
       (100001, 110000, 438, 462), (110001, 120000, 465, 490), (120001, 130000, 493, 517),
       (130001, 140000, 520, 545), (140001, 150000, 548, 572), (150001, 160000, 575, 600),
       (160001, 170000, 603, 627), (170001, 180000, 630, 655), (180001, 190000, 658, 682),
       (190001, 200000, 685, 710), (200001, 210000, 713, 737), (210001, 220000, 740, 765),
       (220001, 230000, 768, 792), (230001, 240000, 795, 820), (240001, 250000, 823, 847),
       (250001, 260000, 850, 875), (260001, 270000, 878, 902), (270001, 280000, 905, 930),
       (280001, 290000, 933, 957), (290001, 300000, 960, 985), (300001, 310000, 988, 1012),
       (310001, 320000, 1015, 1040), (320001, 330000, 1043, 1067), (330001, 340000, 1070, 1095),
       (340001, 350000, 1098, 1122), (350001, 360000, 1125, 1147), (360001, 370000, 1150, 1172),
       (370001, 380000, 1174, 1197), (380001, 390000, 1199, 1221), (390001, 400000, 1224, 1246),
       (400001, 410000, 1249, 1271), (410001, 420000, 1273, 1296), (420001, 430000, 1298, 1320),
       (430001, 440000, 1323, 1345), (440001, 450000, 1348, 1370), (450001, 460000, 1372, 1395),
       (460001, 470000, 1397, 1419), (470001, 480000, 1422, 1444), (480001, 490000, 1447, 1469),
       (490001, 500000, 1471, 1494), (500001, 510000, 1496, 1518), (510001, 520000, 1521, 1543),
       (520001, 530000, 1546, 1568), (530001, 540000, 1570, 1593), (540001, 550000, 1595, 1617),
       (550001, 560000, 1620, 1642), (560001, 570000, 1645, 1667), (570001, 580000, 1669, 1692),
       (580001, 590000, 1694, 1716), (590001, 600000, 1719, 1741), (600001, 610000, 1743, 1762),
       (610001, 620000, 1764, 1783), (620001, 630000, 1785, 1804), (630001, 640000, 1806, 1825),
       (640001, 650000, 1827, 1846), (650001, 660000, 1848, 1868), (660001, 670000, 1869, 1894),
       (670001, 680000, 1890, 1919), (680001, 690000, 1911, 1944), (690001, 700000, 1931, 1969),
       (700001, 710000, 1952, 1995), (710001, 720000, 1973, 2020), (720001, 730000, 1994, 2045),
       (730001, 740000, 2015, 2071), (740001, 750000, 2036, 2096), (750001, 760000, 2057, 2121),
       (760001, 770000, 2078, 2147), (770001, 780000, 2099, 2172), (780001, 790000, 2120, 2197),
       (790001, 800000, 2140, 2222), (800001, 810000, 2161, 2248), (810001, 820000, 2182, 2273),
       (820001, 830000, 2203, 2298), (830001, 840000, 2224, 2324), (840001, 850000, 2245, 2349),
       (850001, 860000, 2266, 2374), (860001, 870000, 2287, 2400), (870001, 880000, 2308, 2425),
       (880001, 890000, 2329, 2450), (890001, 900000, 2349, 2475), (900001, 910000, 2370, 2501),
       (910001, 920000, 2391, 2526), (920001, 930000, 2412, 2551), (930001, 940000, 2433, 2577),
       (940001, 950000, 2454, 2602), (950001, 960000, 2475, 2627), (960001, 970000, 2496, 2653),
       (970001, 980000, 2517, 2678), (980001, 990000, 2538, 2703), (990001, 1000000, 2558, 2728)
  ]"

definition OWNER_POLICY_TABLE :: "OwnerPolicyRow list" where
  "OWNER_POLICY_TABLE =
     map (\<lambda>(l, h, mn, mx). \<lparr>lo = l, hi = h, row_min = mn, row_max = mx\<rparr>)
       OWNER_POLICY_RANGE_CSV"

datatype PremiumMode = Above_1m | Table

record OwnerPolicyPremium =
  res_min :: number
  res_max :: number
  chosen :: number
  mode :: PremiumMode

text \<open>
  \<^verbatim>\<open>calcOwnersPolicyPremium(liabilityAmount, choice = "mid")\<close>. \<^verbatim>\<open>Array.find\<close> gives
  the first row that matches; \<^verbatim>\<open>|| OWNER_POLICY_TABLE[0]\<close> takes the first row of the
  table when none does.
\<close>

definition in_row :: "number \<Rightarrow> OwnerPolicyRow \<Rightarrow> bool" where
  "in_row amt r \<longleftrightarrow> amt \<ge> lo r \<and> amt \<le> hi r"

definition calcOwnersPolicyPremium :: "number \<Rightarrow> OwnerPremiumChoice \<Rightarrow> OwnerPolicyPremium" where
  "calcOwnersPolicyPremium liabilityAmount choice =
     (let amt = max (or_number liabilityAmount 0) 0 in
      if amt > 1000000 then
        (let over = amt - 1000000;
             tenThousands = Math_ceil (over / 10000);
             premium = 2728 + 22 * of_int tenThousands
         in \<lparr>res_min = premium, res_max = premium, chosen = premium, mode = Above_1m\<rparr>)
      else
        (let row = (case List.find (in_row amt) OWNER_POLICY_TABLE of
                      Some r \<Rightarrow> r
                    | None \<Rightarrow> hd OWNER_POLICY_TABLE);
             mid = round2 ((row_min row + row_max row) / 2);
             chosen = (if choice = Low then row_min row
                       else if choice = High then row_max row else mid)
         in \<lparr>res_min = row_min row, res_max = row_max row, chosen = round2 chosen,
             mode = Table\<rparr>))"

text \<open>
  Two checks on a table, used to state and prove the properties of the lookup: the rows
  ascend without overlap, and the band edges of a row are whole dollars.
\<close>

fun rows_ascending :: "OwnerPolicyRow list \<Rightarrow> bool" where
  "rows_ascending [] = True"
| "rows_ascending [r] = (lo r \<le> hi r)"
| "rows_ascending (r # s # rs) = (lo r \<le> hi r \<and> hi r < lo s \<and> rows_ascending (s # rs))"

definition bands_whole :: "OwnerPolicyRow \<Rightarrow> bool" where
  "bands_whole r \<longleftrightarrow> of_int \<lfloor>row_min r\<rfloor> = row_min r \<and> of_int \<lfloor>row_max r\<rfloor> = row_max r"

fun rows_contiguous :: "OwnerPolicyRow list \<Rightarrow> bool" where
  "rows_contiguous [] = True"
| "rows_contiguous [r] = True"
| "rows_contiguous (r # s # rs) =
     (of_int \<lfloor>hi r\<rfloor> = hi r \<and> hi r + 1 = lo s \<and> rows_contiguous (s # rs))"

section \<open>Strings\<close>

text \<open>
  A JavaScript string is a sequence of UTF-16 code units, modelled as a list of natural
  numbers. \<open>js\<close> turns an ASCII literal of the theory into such a sequence.
\<close>

type_synonym jsstring = "nat list"

definition js :: "string \<Rightarrow> jsstring" where
  "js s = map of_char s"

text \<open>
  The code units that are white space or line terminators in ECMAScript: what
  \<^verbatim>\<open>\s\<close> matches in a regular expression and what \<^verbatim>\<open>trim\<close> strips.
\<close>

definition is_space :: "nat \<Rightarrow> bool" where
  "is_space c \<longleftrightarrow>
     c \<in> {9, 10, 11, 12, 13, 32, 160, 5760, 8232, 8233, 8239, 8287, 12288, 65279}
     \<or> (8192 \<le> c \<and> c \<le> 8202)"

definition trim :: "jsstring \<Rightarrow> jsstring" where
  "trim s = rev (dropWhile is_space (rev (dropWhile is_space s)))"

text \<open>
  \<^verbatim>\<open>toLowerCase\<close>, for the code units whose lower case is an ASCII letter: the
  letters A to Z, and the Kelvin sign U+212A, whose lower case is k. Every other code
  unit is left as it is: the rest of the Unicode case mapping never yields an ASCII
  string, and the program only compares the result with ASCII keys.
\<close>

definition lower_unit :: "nat \<Rightarrow> nat" where
  "lower_unit c = (if 65 \<le> c \<and> c \<le> 90 then c + 32 else if c = 8490 then 107 else c)"

definition toLowerCase :: "jsstring \<Rightarrow> jsstring" where
  "toLowerCase s = map lower_unit s"

text \<open>\<^verbatim>\<open>s || ""\<close> on strings: the empty string is the only falsy string.\<close>

definition or_string :: "jsstring \<Rightarrow> jsstring \<Rightarrow> jsstring" where
  "or_string s d = (if s = [] then d else s)"

section \<open>Seller title fees\<close>

text \<open>
  The repository holds two variants of the engine. The definitions of the first file,
  \<^verbatim>\<open>iht_seller_net_sheet_generator_indiana_tax_proration.jsx\<close>, keep the names of the
  source. Those of the second file (the variant with the county list and the fee
  schedules) have the suffix \<open>_v2\<close> where the two files differ or where a property
  compares them.
\<close>

record TitleFeeItem =
  label :: jsstring
  amount :: number

record TitleFees =
  items :: "TitleFeeItem list"
  total :: number

datatype TransactionType = With_loan | Cash

datatype CountyType = Marion | Other

definition label_owner_policy :: jsstring where
  "label_owner_policy = js ''Owner'' @ [8217] @ js ''s title policy (estimate)''"

definition label_settlement :: jsstring where
  "label_settlement = js ''Settlement / closing fee (seller)''"

definition label_title_processing :: jsstring where
  "label_title_processing = js ''Title processing fee (seller)''"

definition label_closing_processing :: jsstring where
  "label_closing_processing = js ''Closing processing fee (seller)''"

definition label_cpl :: jsstring where
  "label_cpl = js ''CPL (seller)''"

definition label_tieff :: jsstring where
  "label_tieff = js ''TIEFF (seller)''"

definition label_deed :: jsstring where
  "label_deed = js ''Recording fee: deed''"

definition label_simplifile :: jsstring where
  "label_simplifile = js ''Simplifile submission (deed)''"

definition label_transfer :: jsstring where
  "label_transfer = js ''County transfer fee + SDF''"

text \<open>
  The end of both variants of \<^verbatim>\<open>calcIhtSellerTitleFees\<close>: the total is the rounded sum
  of the amounts as pushed (\<^verbatim>\<open>items.reduce((sum, x) => sum + (x.amount || 0), 0)\<close>), and
  each item is returned with its amount rounded.
\<close>

definition finish_items :: "TitleFeeItem list \<Rightarrow> TitleFees" where
  "finish_items its =
     (let total = round2 (foldl (\<lambda>sum x. sum + or_number (amount x) 0) 0 its)
      in \<lparr>items = map (\<lambda>x. x\<lparr>amount := round2 (amount x)\<rparr>) its, total = total\<rparr>)"

subsection \<open>First variant: fixed fees\<close>

record TitleFeeSettings =
  transactionType :: TransactionType
  countyType :: CountyType
  useSimplifile :: bool
  ownerPolicyPremium :: number
  includeSettlementFee :: bool
  includeCPL :: bool
  includeTIEFF :: bool
  includeDeedRecording :: bool
  includeTransferFeeSDF :: bool

text \<open>
  \<^verbatim>\<open>calcIhtSellerTitleFees(s)\<close> of the first file. Each \<^verbatim>\<open>items.push\<close> appends one
  item; a push under a condition appends nothing when the condition fails.
\<close>

definition calcIhtSellerTitleFees :: "TitleFeeSettings \<Rightarrow> TitleFees" where
  "calcIhtSellerTitleFees s =
     (let items =
        (if ownerPolicyPremium s > 0
         then [\<lparr>label = label_owner_policy, amount = ownerPolicyPremium s\<rparr>] else []) @
        (if includeSettlementFee s
         then (let settlement = (if transactionType s = With_loan then 390 else 290)
               in [\<lparr>label = label_settlement, amount = settlement\<rparr>])
         else []) @
        [\<lparr>label = label_title_processing, amount = 175\<rparr>] @
        [\<lparr>label = label_closing_processing, amount = 150\<rparr>] @
        (if includeCPL s then [\<lparr>label = label_cpl, amount = 25\<rparr>] else []) @
        (if includeTIEFF s then [\<lparr>label = label_tieff, amount = 5\<rparr>] else []) @
        (if includeDeedRecording s
         then (let deedRecording = (if countyType s = Marion then 35 else 25)
               in [\<lparr>label = label_deed, amount = deedRecording\<rparr>] @
                  (if useSimplifile s then [\<lparr>label = label_simplifile, amount = 4.25\<rparr>]
                   else []))
         else []) @
        (if includeTransferFeeSDF s then [\<lparr>label = label_transfer, amount = 30\<rparr>] else [])
      in finish_items items)"

subsection \<open>Second variant: fee schedules by county\<close>

record FeeSchedule =
  settlementWithLoanSeller :: number
  settlementCashSeller :: number
  titleProcessingSeller :: number
  closingProcessingSeller :: number
  cplSeller :: number
  tieffSeller :: number
  deedRecordingMarion :: number
  deedRecordingOther :: number
  simplifilePerDoc :: number
  transferPlusSDF :: number

definition STANDARD_SCHEDULE :: FeeSchedule where
  "STANDARD_SCHEDULE = \<lparr>
     settlementWithLoanSeller = 390,
     settlementCashSeller = 290,
     titleProcessingSeller = 175,
     closingProcessingSeller = 150,
     cplSeller = 25,
     tieffSeller = 5,
     deedRecordingMarion = 35,
     deedRecordingOther = 25,
     simplifilePerDoc = 4.25,
     transferPlusSDF = 30\<rparr>"

definition VALPO_SCHEDULE :: FeeSchedule where
  "VALPO_SCHEDULE = \<lparr>
     settlementWithLoanSeller = 390,
     settlementCashSeller = 290,
     titleProcessingSeller = 225,
     closingProcessingSeller = 175,
     cplSeller = 25,
     tieffSeller = 5,
     deedRecordingMarion = 35,
     deedRecordingOther = 25,
     simplifilePerDoc = 4.25,
     transferPlusSDF = 30\<rparr>"

text \<open>The members of the set \<^verbatim>\<open>VALPO_COUNTIES\<close>, each in lower case.\<close>

definition VALPO_COUNTIES :: "jsstring list" where
  "VALPO_COUNTIES = map toLowerCase
     [js ''Lake'', js ''Porter'', js ''LaPorte'', js ''St. Joseph'', js ''Elkhart'',
      js ''Kosciusko'', js ''Marshall'', js ''Fulton'', js ''Pulaski'', js ''Starke'',
      js ''Jasper'', js ''Newton'', js ''White'', js ''Cass'']"

definition getFeeScheduleForCounty :: "jsstring \<Rightarrow> FeeSchedule" where
  "getFeeScheduleForCounty county =
     (let key = toLowerCase (trim (or_string county []))
      in if key \<in> set VALPO_COUNTIES then VALPO_SCHEDULE else STANDARD_SCHEDULE)"

record TitleFeeSettings_v2 =
  transactionType_v2 :: TransactionType
  county_v2 :: jsstring
  useSimplifile_v2 :: bool
  ownerPolicyPremium_v2 :: number
  includeSettlementFee_v2 :: bool
  includeCPL_v2 :: bool
  includeTIEFF_v2 :: bool
  includeDeedRecording_v2 :: bool
  includeTransferFeeSDF_v2 :: bool

definition calcIhtSellerTitleFees_v2 :: "TitleFeeSettings_v2 \<Rightarrow> TitleFees" where
  "calcIhtSellerTitleFees_v2 s =
     (let schedule = getFeeScheduleForCounty (county_v2 s);
          items =
        (if ownerPolicyPremium_v2 s > 0
         then [\<lparr>label = label_owner_policy, amount = ownerPolicyPremium_v2 s\<rparr>] else []) @
        (if includeSettlementFee_v2 s
         then (let fullSettlement =
                     (if transactionType_v2 s = With_loan then settlementWithLoanSeller schedule
                      else settlementCashSeller schedule);
                   settlement = round2 (fullSettlement / 2)
               in [\<lparr>label = label_settlement, amount = settlement\<rparr>])
         else []) @
        [\<lparr>label = label_title_processing, amount = titleProcessingSeller schedule\<rparr>] @
        [\<lparr>label = label_closing_processing, amount = closingProcessingSeller schedule\<rparr>] @
        (if includeCPL_v2 s then [\<lparr>label = label_cpl, amount = cplSeller schedule\<rparr>] else []) @
        (if includeTIEFF_v2 s then [\<lparr>label = label_tieff, amount = tieffSeller schedule\<rparr>]
         else []) @
        (if includeDeedRecording_v2 s
         then (let isMarion = (toLowerCase (trim (or_string (county_v2 s) [])) = js ''marion'');
                   deedRecording = (if isMarion then deedRecordingMarion schedule
                                    else deedRecordingOther schedule)
               in [\<lparr>label = label_deed, amount = deedRecording\<rparr>] @
                  (if useSimplifile_v2 s
                   then [\<lparr>label = label_simplifile, amount = simplifilePerDoc schedule\<rparr>]
                   else []))
         else []) @
        (if includeTransferFeeSDF_v2 s
         then [\<lparr>label = label_transfer, amount = transferPlusSDF schedule\<rparr>] else [])
      in finish_items items)"

section \<open>Dates\<close>

text \<open>
  A \<^verbatim>\<open>Date\<close> object is modelled by its time value: the milliseconds since the start of
  1 January 1970 UTC, an integer of at most 8.64e15 in absolute value, or \<^verbatim>\<open>NaN\<close> for an
  invalid date, which is \<open>None\<close> here. A number that is an integer or \<^verbatim>\<open>NaN\<close> is an
  \<open>int option\<close> in the same way. The functions on integers below are those of ECMA-262
  (section "Time Values and Time Range"); the methods of \<^verbatim>\<open>Date\<close> the program calls
  follow, with \<open>TimeClip\<close> and with \<^verbatim>\<open>NaN\<close> passed on as ECMA-262 says.
\<close>

type_synonym Date = "int option"

definition msPerDay :: int where
  "msPerDay = 86400000"

definition Day :: "int \<Rightarrow> int" where
  "Day t = t div msPerDay"

definition TimeWithinDay :: "int \<Rightarrow> int" where
  "TimeWithinDay t = t mod msPerDay"

definition DaysInYear :: "int \<Rightarrow> int" where
  "DaysInYear y =
     (if y mod 4 \<noteq> 0 then 365
      else if y mod 100 \<noteq> 0 then 366
      else if y mod 400 \<noteq> 0 then 365
      else 366)"

definition DayFromYear :: "int \<Rightarrow> int" where
  "DayFromYear y =
     365 * (y - 1970) + (y - 1969) div 4 - (y - 1901) div 100 + (y - 1601) div 400"

definition TimeFromYear :: "int \<Rightarrow> int" where
  "TimeFromYear y = msPerDay * DayFromYear y"

text \<open>
  ECMA-262 defines \<open>YearFromTime t\<close> as the largest year \<open>y\<close> with
  \<open>TimeFromYear y \<le> t\<close>. It is computed here from an estimate that is off by at most
  one year; \<open>YearFromTime_bounds\<close> and \<open>YearFromTime_unique\<close> below prove that the
  result is the year of that definition.
\<close>

definition YearFromTime :: "int \<Rightarrow> int" where
  "YearFromTime t =
     (let d = Day t; y = 1970 + (400 * d) div 146097
      in if DayFromYear (y + 1) \<le> d then y + 1
         else if DayFromYear y \<le> d then y
         else y - 1)"

definition InLeapYear :: "int \<Rightarrow> int" where
  "InLeapYear t = (if DaysInYear (YearFromTime t) = 366 then 1 else 0)"

definition DayWithinYear :: "int \<Rightarrow> int" where
  "DayWithinYear t = Day t - DayFromYear (YearFromTime t)"

definition MonthFromTime :: "int \<Rightarrow> int" where
  "MonthFromTime t =
     (let d = DayWithinYear t; l = InLeapYear t
      in if d < 31 then 0
         else if d < 59 + l then 1
         else if d < 90 + l then 2
         else if d < 120 + l then 3
         else if d < 151 + l then 4
         else if d < 181 + l then 5
         else if d < 212 + l then 6
         else if d < 243 + l then 7
         else if d < 273 + l then 8
         else if d < 304 + l then 9
         else if d < 334 + l then 10
         else 11)"

definition DateFromTime :: "int \<Rightarrow> int" where
  "DateFromTime t =
     (let d = DayWithinYear t; l = InLeapYear t; m = MonthFromTime t
      in if m = 0 then d + 1
         else if m = 1 then d - 30
         else if m = 2 then d - 58 - l
         else if m = 3 then d - 89 - l
         else if m = 4 then d - 119 - l
         else if m = 5 then d - 150 - l
         else if m = 6 then d - 180 - l
         else if m = 7 then d - 211 - l
         else if m = 8 then d - 242 - l
         else if m = 9 then d - 272 - l
         else if m = 10 then d - 303 - l
         else d - 333 - l)"

text \<open>
  \<open>MakeDay year month date\<close>: the day number of the first day of the month (the month
  taken modulo 12, its quotient added to the year), plus \<open>date - 1\<close>. A date outside the
  month runs over into the neighbouring months.
\<close>

definition DaysBeforeMonth :: "int \<Rightarrow> int \<Rightarrow> int" where
  "DaysBeforeMonth y m =
     (let l = (if DaysInYear y = 366 then 1 else 0)
      in if m = 0 then 0
         else if m = 1 then 31
         else if m = 2 then 59 + l
         else if m = 3 then 90 + l
         else if m = 4 then 120 + l
         else if m = 5 then 151 + l
         else if m = 6 then 181 + l
         else if m = 7 then 212 + l
         else if m = 8 then 243 + l
         else if m = 9 then 273 + l
         else if m = 10 then 304 + l
         else 334 + l)"

definition MakeDay :: "int \<Rightarrow> int \<Rightarrow> int \<Rightarrow> int" where
  "MakeDay year month date =
     (let ym = year + month div 12; mn = month mod 12
      in DayFromYear ym + DaysBeforeMonth ym mn + date - 1)"

definition MakeDate :: "int \<Rightarrow> int \<Rightarrow> int" where
  "MakeDate day time = day * msPerDay + time"

text \<open>\<^verbatim>\<open>Date.UTC\<close> reads a year from 0 to 99 as a year of the twentieth century.\<close>

definition MakeFullYear :: "int \<Rightarrow> int" where
  "MakeFullYear y = (if 0 \<le> y \<and> y \<le> 99 then 1900 + y else y)"

text \<open>A time outside the range of \<^verbatim>\<open>Date\<close> is no time value.\<close>

definition TimeClip :: "int \<Rightarrow> int option" where
  "TimeClip t = (if \<bar>t\<bar> > 8640000000000000 then None else Some t)"

text \<open>
  \<^verbatim>\<open>Date.UTC(year, month, date)\<close>, \<^verbatim>\<open>new Date(value)\<close> and the methods. An argument that is
  \<^verbatim>\<open>NaN\<close> gives \<^verbatim>\<open>NaN\<close>, and so does a result outside the range. The arguments the
  program passes are fields of dates; the limit ECMA-262 leaves to \<open>MakeDay\<close> for
  years far outside the range of \<^verbatim>\<open>Date\<close> is not modelled.
\<close>

definition Date_UTC :: "int option \<Rightarrow> int option \<Rightarrow> int option \<Rightarrow> int option" where
  "Date_UTC year month date =
     (case (year, month, date) of
        (Some y, Some m, Some d) \<Rightarrow> TimeClip (MakeDate (MakeDay (MakeFullYear y) m d) 0)
      | _ \<Rightarrow> None)"

definition new_Date :: "int option \<Rightarrow> Date" where
  "new_Date v = (case v of Some t \<Rightarrow> TimeClip t | None \<Rightarrow> None)"

definition getTime :: "Date \<Rightarrow> int option" where
  "getTime dt = dt"

definition getUTCFullYear :: "Date \<Rightarrow> int option" where
  "getUTCFullYear dt = map_option YearFromTime dt"

definition getUTCMonth :: "Date \<Rightarrow> int option" where
  "getUTCMonth dt = map_option MonthFromTime dt"

definition getUTCDate :: "Date \<Rightarrow> int option" where
  "getUTCDate dt = map_option DateFromTime dt"

definition setUTCDate :: "Date \<Rightarrow> int option \<Rightarrow> Date" where
  "setUTCDate dt date =
     (case (dt, date) of
        (Some t, Some d) \<Rightarrow>
          TimeClip (MakeDate (MakeDay (YearFromTime t) (MonthFromTime t) d) (TimeWithinDay t))
      | _ \<Rightarrow> None)"

text \<open>\<^verbatim>\<open>a < b\<close> on numbers that may be \<^verbatim>\<open>NaN\<close>: false when either is.\<close>

definition js_less :: "int option \<Rightarrow> int option \<Rightarrow> bool" where
  "js_less a b = (case (a, b) of (Some x, Some y) \<Rightarrow> x < y | _ \<Rightarrow> False)"

text \<open>
  \<^verbatim>\<open>String(n)\<close> for an integer or \<^verbatim>\<open>NaN\<close>, and \<^verbatim>\<open>padStart\<close> with a filler of one code
  unit.
\<close>

fun digits_of :: "nat \<Rightarrow> jsstring" where
  "digits_of n = (if n < 10 then [48 + n] else digits_of (n div 10) @ [48 + n mod 10])"

definition String_of_int :: "int \<Rightarrow> jsstring" where
  "String_of_int i = (if i < 0 then 45 # digits_of (nat (- i)) else digits_of (nat i))"

definition String_of_number :: "int option \<Rightarrow> jsstring" where
  "String_of_number v = (case v of None \<Rightarrow> js ''NaN'' | Some i \<Rightarrow> String_of_int i)"

definition padStart :: "jsstring \<Rightarrow> nat \<Rightarrow> nat \<Rightarrow> jsstring" where
  "padStart s n c = replicate (n - length s) c @ s"

subsection \<open>The date utilities of the first file\<close>

text \<open>
  \<^verbatim>\<open>function ymd(dt)\<close>: year, month and day of the month, joined by \<^verbatim>\<open>-\<close>, the last
  two padded to two digits.
\<close>

definition ymd :: "Date \<Rightarrow> jsstring" where
  "ymd dt =
     (let y = getUTCFullYear dt;
          m = padStart (String_of_number (map_option (\<lambda>m. m + 1) (getUTCMonth dt))) 2 48;
          d = padStart (String_of_number (getUTCDate dt)) 2 48
      in String_of_number y @ js ''-'' @ m @ js ''-'' @ d)"

text \<open>
  \<^verbatim>\<open>function addDaysUTC(dt, days) { const copy = new Date(dt.getTime());
  copy.setUTCDate(copy.getUTCDate() + days); return copy; }\<close>
\<close>

definition addDaysUTC :: "Date \<Rightarrow> int \<Rightarrow> Date" where
  "addDaysUTC dt days =
     (let copy = new_Date (getTime dt)
      in setUTCDate copy (map_option (\<lambda>d. d + days) (getUTCDate copy)))"

definition daysBetweenInclusiveUTC :: "Date \<Rightarrow> Date \<Rightarrow> int option" where
  "daysBetweenInclusiveUTC start end' =
     (let msPerDay' = 24 * 60 * 60 * 1000;
          s = Date_UTC (getUTCFullYear start) (getUTCMonth start) (getUTCDate start);
          e = Date_UTC (getUTCFullYear end') (getUTCMonth end') (getUTCDate end')
      in if js_less e s then Some 0
         else (case (e, s) of
                 (Some e', Some s') \<Rightarrow> Some (Math_floor (of_int (e' - s') / of_int msPerDay') + 1)
               | _ \<Rightarrow> None))"

subsection \<open>The same utilities in the second file\<close>

definition isLeapYear_v2 :: "int option \<Rightarrow> bool" where
  "isLeapYear_v2 year =
     (case year of
        None \<Rightarrow> False
      | Some y \<Rightarrow> y mod 400 = 0 \<or> (y mod 4 = 0 \<and> y mod 100 \<noteq> 0))"

definition ymd_v2 :: "Date \<Rightarrow> jsstring" where
  "ymd_v2 dt =
     (let y = getUTCFullYear dt;
          m = padStart (String_of_number (map_option (\<lambda>m. m + 1) (getUTCMonth dt))) 2 48;
          d = padStart (String_of_number (getUTCDate dt)) 2 48
      in String_of_number y @ js ''-'' @ m @ js ''-'' @ d)"

definition addDaysUTC_v2 :: "Date \<Rightarrow> int \<Rightarrow> Date" where
  "addDaysUTC_v2 dt days =
     (let copy = new_Date (getTime dt)
      in setUTCDate copy (map_option (\<lambda>d. d + days) (getUTCDate copy)))"

definition daysBetweenInclusiveUTC_v2 :: "Date \<Rightarrow> Date \<Rightarrow> int option" where
  "daysBetweenInclusiveUTC_v2 start end' =
     (let msPerDay' = 24 * 60 * 60 * 1000;
          s = Date_UTC (getUTCFullYear start) (getUTCMonth start) (getUTCDate start);
          e = Date_UTC (getUTCFullYear end') (getUTCMonth end') (getUTCDate end')
      in if js_less e s then Some 0
         else (case (e, s) of
                 (Some e', Some s') \<Rightarrow> Some (Math_floor (of_int (e' - s') / of_int msPerDay') + 1)
               | _ \<Rightarrow> None))"

section \<open>Tax proration\<close>

datatype ProrateThrough = Day_before | Closing_date

text \<open>
  \<^verbatim>\<open>TaxSettings\<close> and \<^verbatim>\<open>TaxBreakdown\<close> are declared with the same fields in both files. The
  days in the year are an integer in every run. The days accrued are an integer, or
  \<^verbatim>\<open>NaN\<close> when a date of the computation is invalid; the accrued amount and the total
  debit are then \<^verbatim>\<open>NaN\<close> too. These three fields are options, \<open>None\<close> for \<^verbatim>\<open>NaN\<close>.
\<close>

record TaxSettings =
  priorYearTax :: number
  springPaid :: bool
  springPaidAmount :: number
  fallPaid :: bool
  fallPaidAmount :: number
  prorateThrough :: ProrateThrough
  force365 :: bool

record TaxBreakdown =
  prorationEndYMD :: jsstring
  daysInYear :: int
  dailyRate :: number
  daysAccrued :: "int option"
  accruedThisYear :: "number option"
  paidTotal :: number
  unpaidPriorYear :: number
  totalDebit :: "number option"

text \<open>\<^verbatim>\<open>calcIndianaTaxProration(closingUTC, tax)\<close> of the first file.\<close>

definition calcIndianaTaxProration :: "Date \<Rightarrow> TaxSettings \<Rightarrow> TaxBreakdown" where
  "calcIndianaTaxProration closingUTC tax =
     (let year = getUTCFullYear closingUTC;
          jan1 = new_Date (Date_UTC year (Some 0) (Some 1));
          prorationEnd = (if prorateThrough tax = Day_before then addDaysUTC closingUTC (- 1)
                          else closingUTC);
          daysInYear = (if force365 tax then 365 else if isLeapYear year then 366 else 365);
          TY = max (or_number (priorYearTax tax) 0) 0;
          dailyRate = TY / of_int daysInYear;
          daysAccrued = (if js_less (getTime prorationEnd) (getTime jan1) then Some 0
                         else daysBetweenInclusiveUTC jan1 prorationEnd);
          accruedThisYear = map_option (\<lambda>d. dailyRate * of_int d) daysAccrued;
          paidTotal =
            (if springPaid tax then max (or_number (springPaidAmount tax) 0) 0 else 0) +
            (if fallPaid tax then max (or_number (fallPaidAmount tax) 0) 0 else 0);
          unpaidPriorYear = max (TY - paidTotal) 0;
          totalDebit = map_option (\<lambda>a. unpaidPriorYear + a) accruedThisYear
      in \<lparr>prorationEndYMD = ymd prorationEnd,
          daysInYear = daysInYear,
          dailyRate = dailyRate,
          daysAccrued = daysAccrued,
          accruedThisYear = accruedThisYear,
          paidTotal = paidTotal,
          unpaidPriorYear = unpaidPriorYear,
          totalDebit = totalDebit\<rparr>)"

text \<open>\<^verbatim>\<open>calcIndianaTaxProration(closingUTC, tax)\<close> of the second file.\<close>

definition calcIndianaTaxProration_v2 :: "Date \<Rightarrow> TaxSettings \<Rightarrow> TaxBreakdown" where
  "calcIndianaTaxProration_v2 closingUTC tax =
     (let year = getUTCFullYear closingUTC;
          jan1 = new_Date (Date_UTC year (Some 0) (Some 1));
          prorationEnd = (if prorateThrough tax = Day_before then addDaysUTC_v2 closingUTC (- 1)
                          else closingUTC);
          daysInYear = (if force365 tax then 365 else if isLeapYear_v2 year then 366 else 365);
          TY = max (or_number (priorYearTax tax) 0) 0;
          dailyRate = TY / of_int daysInYear;
          daysAccrued = (if js_less (getTime prorationEnd) (getTime jan1) then Some 0
                         else daysBetweenInclusiveUTC_v2 jan1 prorationEnd);
          accruedThisYear = map_option (\<lambda>d. dailyRate * of_int d) daysAccrued;
          paidTotal =
            (if springPaid tax then max (or_number (springPaidAmount tax) 0) 0 else 0) +
            (if fallPaid tax then max (or_number (fallPaidAmount tax) 0) 0 else 0);
          unpaidPriorYear = max (TY - paidTotal) 0;
          totalDebit = map_option (\<lambda>a. unpaidPriorYear + a) accruedThisYear
      in \<lparr>prorationEndYMD = ymd_v2 prorationEnd,
          daysInYear = daysInYear,
          dailyRate = dailyRate,
          daysAccrued = daysAccrued,
          accruedThisYear = accruedThisYear,
          paidTotal = paidTotal,
          unpaidPriorYear = unpaidPriorYear,
          totalDebit = totalDebit\<rparr>)"

text \<open>
  The proration as the specification words it, for comparison with the code, on a
  closing date with the time value \<open>closingDate\<close>. The closing date's calendar year is
  \<open>YearFromTime\<close>, 1 January of a year is the day \<open>DayFromYear\<close>, and the cutoff is
  the closing time moved back by one day under the day-before policy. The installments
  are summed as they are stored. Every field is a number.
\<close>

definition spec_prorate :: "int \<Rightarrow> TaxSettings \<Rightarrow> TaxBreakdown" where
  "spec_prorate closingDate tax =
     (let year = YearFromTime closingDate;
          yearStart = DayFromYear year;
          cutoff = (if prorateThrough tax = Day_before then closingDate - msPerDay
                    else closingDate);
          daysInYear = (if force365 tax then 365
                        else if year mod 400 = 0 \<or> (year mod 4 = 0 \<and> year mod 100 \<noteq> 0) then 366
                        else 365);
          dailyRate = max (priorYearTax tax) 0 / of_int daysInYear;
          daysAccrued = (if Day cutoff < yearStart then 0 else Day cutoff - yearStart + 1);
          accruedThisYear = dailyRate * of_int daysAccrued;
          paidTotal = (if springPaid tax then springPaidAmount tax else 0) +
                      (if fallPaid tax then fallPaidAmount tax else 0);
          unpaidPriorYear = max (priorYearTax tax - paidTotal) 0
      in \<lparr>prorationEndYMD = ymd (Some cutoff),
          daysInYear = daysInYear,
          dailyRate = dailyRate,
          daysAccrued = Some daysAccrued,
          accruedThisYear = Some accruedThisYear,
          paidTotal = paidTotal,
          unpaidPriorYear = unpaidPriorYear,
          totalDebit = Some (unpaidPriorYear + accruedThisYear)\<rparr>)"

text \<open>
  A total debit is not above another: both are numbers and the first is at most the
  second, or both are \<^verbatim>\<open>NaN\<close>.
\<close>

definition not_above :: "number option \<Rightarrow> number option \<Rightarrow> bool" where
  "not_above a b = (case (a, b) of (Some x, Some y) \<Rightarrow> x \<le> y | (None, None) \<Rightarrow> True | _ \<Rightarrow> False)"

section \<open>Parsing numbers\<close>

text \<open>
  \<^verbatim>\<open>Number(string)\<close> is ECMA-262's \<open>StringToNumber\<close>: the string, trimmed of white
  space, is empty (the value is 0), or a numeric literal, or the result is \<^verbatim>\<open>NaN\<close>. A
  literal is a binary, octal or hexadecimal integer (\<^verbatim>\<open>0b\<close>, \<^verbatim>\<open>0o\<close>, \<^verbatim>\<open>0x\<close>, without a
  sign) or a decimal literal with an optional sign: \<^verbatim>\<open>Infinity\<close>, or digits with an
  optional fraction and an optional exponent. The result is the mathematical value of
  the literal; a value that rounds to an infinity in binary64 (from
  \<open>2\<^sup>1\<^sup>0\<^sup>2\<^sup>4 - 2\<^sup>9\<^sup>7\<^sup>0\<close> on) is that infinity. The rounding of a finite value
  to the nearest binary64 number is not modelled.
\<close>

datatype jsnum = Finite number | NaN | PosInfinity | NegInfinity

definition is_digit :: "nat \<Rightarrow> bool" where
  "is_digit c \<longleftrightarrow> 48 \<le> c \<and> c \<le> 57"

text \<open>The value of a digit in a base up to 16, if it is one.\<close>

definition digit_in_base :: "nat \<Rightarrow> nat \<Rightarrow> nat option" where
  "digit_in_base b c =
     (let v = (if 48 \<le> c \<and> c \<le> 57 then Some (c - 48)
               else if 97 \<le> c \<and> c \<le> 102 then Some (c - 87)
               else if 65 \<le> c \<and> c \<le> 70 then Some (c - 55)
               else None)
      in case v of None \<Rightarrow> None | Some d \<Rightarrow> if d < b then Some d else None)"

definition digits_in_base :: "nat \<Rightarrow> jsstring \<Rightarrow> nat option" where
  "digits_in_base b s =
     (if s \<noteq> [] \<and> list_all (\<lambda>c. digit_in_base b c \<noteq> None) s
      then Some (foldl (\<lambda>a c. b * a + the (digit_in_base b c)) 0 s)
      else None)"

definition pow10 :: "int \<Rightarrow> number" where
  "pow10 e = (if 0 \<le> e then 10 ^ nat e else 1 / 10 ^ nat (- e))"

text \<open>
  The exponent part of a decimal literal, which has to take the rest of the string: the
  exponent, 0 when the rest is empty.
\<close>

definition exponent_part :: "jsstring \<Rightarrow> int option" where
  "exponent_part s =
     (case s of
        [] \<Rightarrow> Some 0
      | c # r \<Rightarrow>
          if c = 101 \<or> c = 69 then
            (let neg = (r \<noteq> [] \<and> hd r = 45);
                 ds = (if r \<noteq> [] \<and> (hd r = 43 \<or> hd r = 45) then tl r else r)
             in case digits_in_base 10 ds of
                  None \<Rightarrow> None
                | Some n \<Rightarrow> Some (if neg then - int n else int n))
          else None)"

text \<open>The mathematical value of an unsigned decimal literal other than \<^verbatim>\<open>Infinity\<close>.\<close>

definition unsigned_decimal :: "jsstring \<Rightarrow> number option" where
  "unsigned_decimal s =
     (let ip = takeWhile is_digit s; r = dropWhile is_digit s
      in if r \<noteq> [] \<and> hd r = 46 then
           (let fp = takeWhile is_digit (tl r); r2 = dropWhile is_digit (tl r)
            in if ip = [] \<and> fp = [] then None
               else case exponent_part r2 of
                      None \<Rightarrow> None
                    | Some e \<Rightarrow>
                        Some (of_nat (the (digits_in_base 10 (ip @ fp))) *
                              pow10 (e - int (length fp))))
         else if ip = [] then None
         else case exponent_part r of
                None \<Rightarrow> None
              | Some e \<Rightarrow> Some (of_nat (the (digits_in_base 10 ip)) * pow10 e))"

definition radix_literal :: "jsstring \<Rightarrow> nat option" where
  "radix_literal s =
     (case s of
        c # p # r \<Rightarrow>
          if c \<noteq> 48 then None
          else if p = 120 \<or> p = 88 then digits_in_base 16 r
          else if p = 111 \<or> p = 79 then digits_in_base 8 r
          else if p = 98 \<or> p = 66 then digits_in_base 2 r
          else None
      | _ \<Rightarrow> None)"

definition round_result :: "number \<Rightarrow> jsnum" where
  "round_result mv =
     (if 2 ^ 1024 - 2 ^ 970 \<le> \<bar>mv\<bar> then (if mv < 0 then NegInfinity else PosInfinity)
      else Finite mv)"

definition Number :: "jsstring \<Rightarrow> jsnum" where
  "Number s =
     (let t = trim s
      in if t = [] then Finite 0
         else case radix_literal t of
                Some v \<Rightarrow> round_result (of_nat v)
              | None \<Rightarrow>
                  (let neg = (hd t = 45);
                       u = (if hd t = 43 \<or> hd t = 45 then tl t else t)
                   in if u = js ''Infinity'' then (if neg then NegInfinity else PosInfinity)
                      else case unsigned_decimal u of
                             None \<Rightarrow> NaN
                           | Some mv \<Rightarrow> round_result (if neg then - mv else mv)))"

text \<open>
  \<^verbatim>\<open>function parseNumber(value) { const cleaned = value.replace(/[$,\s]/g, "");
  const n = Number(cleaned); return Number.isFinite(n) ? n : 0; }\<close>
\<close>

definition parseNumber :: "jsstring \<Rightarrow> number" where
  "parseNumber value =
     (let cleaned = filter (\<lambda>c. \<not> (c = 36 \<or> c = 44 \<or> is_space c)) value;
          n = Number cleaned
      in case n of Finite x \<Rightarrow> x | _ \<Rightarrow> 0)"

text \<open>
  \<^verbatim>\<open>function formatInputMoney(value) { return value.replace(/[^0-9.,$]/g, ""); }\<close>, which
  the form applies to every money field before it is stored.
\<close>

definition formatInputMoney :: "jsstring \<Rightarrow> jsstring" where
  "formatInputMoney value = filter (\<lambda>c. is_digit c \<or> c = 46 \<or> c = 44 \<or> c = 36) value"

text \<open>\<^verbatim>\<open>function formatInputPercent(value) { return value.replace(/[^0-9.]/g, ""); }\<close>\<close>

definition formatInputPercent :: "jsstring \<Rightarrow> jsstring" where
  "formatInputPercent value = filter (\<lambda>c. is_digit c \<or> c = 46) value"

text \<open>
  The code units that occur in some numeric literal: the digits, the signs, the point,
  and the letters of the hexadecimal digits, of the exponent, of the radix prefixes and
  of \<^verbatim>\<open>Infinity\<close>.
\<close>

definition numeric_unit :: "nat \<Rightarrow> bool" where
  "numeric_unit c \<longleftrightarrow> is_digit c \<or> c \<in> set (js ''+-.abcdefABCDEFxXoOInity'')"

section \<open>Properties of the premium lookup\<close>

lemma round2_cents: "round2 (of_int k / 100) = of_int k / 100"
proof -
  have "\<lfloor>(of_int k / 100 + 1 / 2 ^ 52) * 100 + 1 / 2 :: rat\<rfloor> = k"
    by (rule floor_unique) (simp_all add: field_simps)
  then show ?thesis
    by (simp add: round2_def Math_round_def Number_EPSILON_def)
qed

lemma round2_int: "round2 (of_int k) = of_int k"
  using round2_cents [of "k * 100"] by simp

lemma round2_idem: "round2 (round2 x) = round2 x"
proof -
  obtain k where k: "round2 x = of_int k / 100"
    by (simp add: round2_def)
  show ?thesis
    by (simp only: k round2_cents)
qed

lemma rows_ascending_tail: "rows_ascending (r # rs) \<Longrightarrow> rows_ascending rs"
  by (cases rs) simp_all

lemma rows_ascending_later:
  "rows_ascending (r # rs) \<Longrightarrow> s \<in> set rs \<Longrightarrow> hi r < lo s"
proof (induction rs arbitrary: r)
  case Nil
  then show ?case by simp
next
  case (Cons t ts)
  show ?case
  proof (cases "s = t")
    case True
    with Cons.prems show ?thesis by simp
  next
    case False
    with Cons.prems have "s \<in> set ts" by simp
    moreover from Cons.prems have "rows_ascending (t # ts)" by simp
    ultimately have "hi t < lo s" by (rule Cons.IH [rotated])
    moreover from Cons.prems have "hi r < lo t" "lo t \<le> hi t"
      by (cases ts; simp)+
    ultimately show ?thesis by linarith
  qed
qed

lemma find_in_ascending:
  "rows_ascending rs \<Longrightarrow> r \<in> set rs \<Longrightarrow> in_row a r \<Longrightarrow> List.find (in_row a) rs = Some r"
proof (induction rs)
  case Nil
  then show ?case by simp
next
  case (Cons t ts)
  show ?case
  proof (cases "in_row a t")
    case True
    have "r = t"
    proof (rule ccontr)
      assume "r \<noteq> t"
      with Cons.prems have "r \<in> set ts" by simp
      with Cons.prems have "hi t < lo r" by (auto dest: rows_ascending_later)
      with True Cons.prems(3) show False by (simp add: in_row_def)
    qed
    with True show ?thesis by simp
  next
    case False
    with Cons.prems have "r \<in> set ts" by auto
    with Cons False show ?thesis by (simp add: rows_ascending_tail)
  qed
qed

lemma table_ascending: "rows_ascending OWNER_POLICY_TABLE"
  by code_simp

lemma table_bands_whole: "list_all bands_whole OWNER_POLICY_TABLE"
  by code_simp

lemma table_bands_ordered: "list_all (\<lambda>r. row_min r \<le> row_max r) OWNER_POLICY_TABLE"
  by code_simp

lemma row_round2:
  assumes "r \<in> set OWNER_POLICY_TABLE"
  shows "round2 (row_min r) = row_min r" and "round2 (row_max r) = row_max r"
proof -
  from assms table_bands_whole have w: "bands_whole r"
    by (simp add: list_all_iff)
  from w obtain m where m: "row_min r = of_int m"
    by (auto simp: bands_whole_def)
  show "round2 (row_min r) = row_min r"
    by (simp only: m round2_int)
  from w obtain n where n: "row_max r = of_int n"
    by (auto simp: bands_whole_def)
  show "round2 (row_max r) = row_max r"
    by (simp only: n round2_int)
qed

lemma table_hi_le:
  "list_all (\<lambda>r. hi r \<le> 1000000) OWNER_POLICY_TABLE"
  by code_simp

lemma calc_in_row:
  assumes r: "r \<in> set OWNER_POLICY_TABLE" and a: "lo r \<le> a" "a \<le> hi r" "0 \<le> a"
  shows "calcOwnersPolicyPremium a c =
    \<lparr>res_min = row_min r, res_max = row_max r,
     chosen = (if c = Low then row_min r else if c = High then row_max r
               else round2 ((row_min r + row_max r) / 2)),
     mode = Table\<rparr>"
proof -
  from r table_hi_le have "hi r \<le> 1000000" by (simp add: list_all_iff)
  with a have le: "\<not> a > 1000000" by simp
  from a have amt: "max (or_number a 0) 0 = a" by (simp add: or_number_def)
  from a have "in_row a r" by (simp add: in_row_def)
  with r have f: "List.find (in_row a) OWNER_POLICY_TABLE = Some r"
    by (simp add: find_in_ascending table_ascending)
  show ?thesis
    unfolding calcOwnersPolicyPremium_def Let_def amt
    using le f by (simp add: row_round2 [OF r] round2_idem)
qed

lemma calc_above_1m:
  assumes "1000000 < a"
  shows "calcOwnersPolicyPremium a c =
    \<lparr>res_min = 2728 + 22 * of_int \<lceil>(a - 1000000) / 10000\<rceil>,
     res_max = 2728 + 22 * of_int \<lceil>(a - 1000000) / 10000\<rceil>,
     chosen = 2728 + 22 * of_int \<lceil>(a - 1000000) / 10000\<rceil>,
     mode = Above_1m\<rparr>"
proof -
  from assms have amt: "max (or_number a 0) 0 = a" by (simp add: or_number_def)
  show ?thesis
    unfolding calcOwnersPolicyPremium_def Let_def amt Math_ceil_def
    using assms by simp
qed

lemma first_row_in_table:
  "\<lparr>lo = 0, hi = 50000, row_min = 209, row_max = 220\<rparr> \<in> set OWNER_POLICY_TABLE"
  by (simp add: OWNER_POLICY_TABLE_def OWNER_POLICY_RANGE_CSV_def)

lemma round2_429_half: "round2 (429 / 2) = 429 / 2"
proof -
  have "(429 :: rat) / 2 = of_int 21450 / 100" by simp
  then show ?thesis by (simp only: round2_cents)
qed

text \<open>
  C3. An amount between 0 and 1,000,000 that lies in a row of the table, bounds included,
  is priced from that row: the choice low gives the row's lower band edge, high the
  upper one, mid the midpoint of the band rounded to cents, and the reported minimum and
  maximum are the band edges themselves. At 50,000 the three choices give 209, 220 and
  214.50.
\<close>

theorem premium_lookup_within_row:
  "(\<forall>r a. r \<in> set OWNER_POLICY_TABLE \<longrightarrow> 0 \<le> a \<longrightarrow> a \<le> 1000000 \<longrightarrow> lo r \<le> a \<longrightarrow> a \<le> hi r \<longrightarrow>
      chosen (calcOwnersPolicyPremium a Low) = row_min r \<and>
      chosen (calcOwnersPolicyPremium a High) = row_max r \<and>
      chosen (calcOwnersPolicyPremium a Mid) = round2 ((row_min r + row_max r) / 2) \<and>
      (\<forall>c. res_min (calcOwnersPolicyPremium a c) = row_min r \<and>
           res_max (calcOwnersPolicyPremium a c) = row_max r \<and>
           mode (calcOwnersPolicyPremium a c) = Table)) \<and>
   chosen (calcOwnersPolicyPremium 50000 Low) = 209 \<and>
   chosen (calcOwnersPolicyPremium 50000 High) = 220 \<and>
   chosen (calcOwnersPolicyPremium 50000 Mid) = 214.50"
proof (intro conjI allI impI)
  fix r a c
  assume r: "r \<in> set OWNER_POLICY_TABLE" and a: "0 \<le> a" "lo r \<le> a" "a \<le> hi r"
  note eq = calc_in_row [OF r a(2) a(3) a(1)]
  show "chosen (calcOwnersPolicyPremium a Low) = row_min r" by (simp add: eq)
  show "chosen (calcOwnersPolicyPremium a High) = row_max r" by (simp add: eq)
  show "chosen (calcOwnersPolicyPremium a Mid) = round2 ((row_min r + row_max r) / 2)"
    by (simp add: eq)
  show "res_min (calcOwnersPolicyPremium a c) = row_min r" by (simp add: eq)
  show "res_max (calcOwnersPolicyPremium a c) = row_max r" by (simp add: eq)
  show "mode (calcOwnersPolicyPremium a c) = Table" by (simp add: eq)
next
  note eq = calc_in_row [OF first_row_in_table, of 50000]
  show "chosen (calcOwnersPolicyPremium 50000 Low) = 209" by (simp add: eq)
  show "chosen (calcOwnersPolicyPremium 50000 High) = 220" by (simp add: eq)
  show "chosen (calcOwnersPolicyPremium 50000 Mid) = 214.50"
    by (simp add: eq round2_429_half)
qed

theorem premium_lookup_within_row_witness:
  "\<lparr>lo = 0, hi = 50000, row_min = 209, row_max = 220\<rparr> \<in> set OWNER_POLICY_TABLE \<and>
   (0 :: number) \<le> 12345.67 \<and> (12345.67 :: number) \<le> 1000000 \<and>
   chosen (calcOwnersPolicyPremium 12345.67 Low) = 209 \<and>
   chosen (calcOwnersPolicyPremium 12345.67 High) = 220 \<and>
   chosen (calcOwnersPolicyPremium 12345.67 Mid) = 214.50 \<and>
   res_min (calcOwnersPolicyPremium 12345.67 Mid) = 209 \<and>
   res_max (calcOwnersPolicyPremium 12345.67 Mid) = 220"
  using premium_lookup_within_row [THEN conjunct1, rule_format,
      OF first_row_in_table, of "12345.67"]
  by (simp add: first_row_in_table round2_429_half)

text \<open>
  C4. Above 1,000,000 the lookup is in overflow mode for every choice: minimum, maximum
  and chosen premium are all 2728 plus 22 for each started unit of 10,000 over
  1,000,000 (the quotient is rounded up). One dollar over, and exactly 10,000 over, give
  2750; 10,001 over gives 2772.
\<close>

theorem premium_lookup_above_ceiling:
  "(\<forall>a c. 1000000 < a \<longrightarrow>
      res_min (calcOwnersPolicyPremium a c) = 2728 + 22 * of_int \<lceil>(a - 1000000) / 10000\<rceil> \<and>
      res_max (calcOwnersPolicyPremium a c) = 2728 + 22 * of_int \<lceil>(a - 1000000) / 10000\<rceil> \<and>
      chosen (calcOwnersPolicyPremium a c) = 2728 + 22 * of_int \<lceil>(a - 1000000) / 10000\<rceil> \<and>
      mode (calcOwnersPolicyPremium a c) = Above_1m) \<and>
   (\<forall>c. chosen (calcOwnersPolicyPremium 1000001 c) = 2750 \<and>
        chosen (calcOwnersPolicyPremium 1010000 c) = 2750 \<and>
        chosen (calcOwnersPolicyPremium 1010001 c) = 2772 \<and>
        chosen (calcOwnersPolicyPremium 1000000.01 c) = 2750 \<and>
        chosen (calcOwnersPolicyPremium 1010000.01 c) = 2772)"
proof (intro conjI allI impI)
  fix a :: number and c
  assume "1000000 < a"
  note eq = calc_above_1m [OF this]
  show "res_min (calcOwnersPolicyPremium a c) = 2728 + 22 * of_int \<lceil>(a - 1000000) / 10000\<rceil>"
    by (simp add: eq)
  show "res_max (calcOwnersPolicyPremium a c) = 2728 + 22 * of_int \<lceil>(a - 1000000) / 10000\<rceil>"
    by (simp add: eq)
  show "chosen (calcOwnersPolicyPremium a c) = 2728 + 22 * of_int \<lceil>(a - 1000000) / 10000\<rceil>"
    by (simp add: eq)
  show "mode (calcOwnersPolicyPremium a c) = Above_1m"
    by (simp add: eq)
next
  fix c
  have c1: "\<lceil>(1 :: rat) / 10000\<rceil> = 1" by (rule ceiling_unique) simp_all
  have c2: "\<lceil>(10001 :: rat) / 10000\<rceil> = 2" by (rule ceiling_unique) simp_all
  have c3: "\<lceil>(1 :: rat) / 1000000\<rceil> = 1" by (rule ceiling_unique) simp_all
  have c4: "\<lceil>(1000001 :: rat) / 1000000\<rceil> = 2" by (rule ceiling_unique) simp_all
  show "chosen (calcOwnersPolicyPremium 1000001 c) = 2750"
    by (simp add: calc_above_1m c1)
  show "chosen (calcOwnersPolicyPremium 1010000 c) = 2750"
    by (simp add: calc_above_1m)
  show "chosen (calcOwnersPolicyPremium 1010001 c) = 2772"
    by (simp add: calc_above_1m c2)
  show "chosen (calcOwnersPolicyPremium 1000000.01 c) = 2750"
    by (simp add: calc_above_1m c3)
  show "chosen (calcOwnersPolicyPremium 1010000.01 c) = 2772"
    by (simp add: calc_above_1m c4)
qed

theorem premium_lookup_above_ceiling_witness:
  "(1000000 :: number) < 1234567.89 \<and>
   calcOwnersPolicyPremium 1234567.89 Mid =
     \<lparr>res_min = 3256, res_max = 3256, chosen = 3256, mode = Above_1m\<rparr>"
proof -
  have lt: "(1000000 :: number) < 1234567.89" by simp
  have c: "\<lceil>(23456789 :: rat) / 1000000\<rceil> = 24" by (rule ceiling_unique) simp_all
  from premium_lookup_above_ceiling [THEN conjunct1, rule_format, OF lt, of Mid] lt c
  show ?thesis by (cases "calcOwnersPolicyPremium 1234567.89 Mid") simp
qed

lemma contiguous_cover:
  "rows_contiguous rs \<Longrightarrow> rs \<noteq> [] \<Longrightarrow> lo (hd rs) \<le> of_int n \<Longrightarrow> of_int n \<le> hi (last rs)
    \<Longrightarrow> \<exists>r \<in> set rs. in_row (of_int n) r"
proof (induction rs rule: rows_contiguous.induct)
  case 1
  then show ?case by simp
next
  case (2 r)
  then show ?case by (simp add: in_row_def)
next
  case (3 r s rs)
  show ?case
  proof (cases "of_int n \<le> hi r")
    case True
    with "3.prems" show ?thesis by (simp add: in_row_def)
  next
    case False
    from "3.prems" obtain m where m: "hi r = of_int m"
      by (metis rows_contiguous.simps(3))
    with False have "m < n" by simp
    then have "m + 1 \<le> n" by simp
    then have "(of_int (m + 1) :: rat) \<le> of_int n" by (simp only: of_int_le_iff)
    with m "3.prems" have "lo s \<le> of_int n" by simp
    with "3.prems" "3.IH" show ?thesis by simp
  qed
qed

lemma table_contiguous: "rows_contiguous OWNER_POLICY_TABLE"
  by code_simp

lemma table_ends:
  "OWNER_POLICY_TABLE \<noteq> [] \<and> lo (hd OWNER_POLICY_TABLE) = 0 \<and> hi (last OWNER_POLICY_TABLE) = 1000000"
  by code_simp

text \<open>
  Every whole-dollar amount from 0 to 1,000,000 lies in exactly one row of the table.
\<close>

lemma whole_dollar_amount_one_row:
  assumes "0 \<le> n" "n \<le> 1000000"
  shows "\<exists>!r. r \<in> set OWNER_POLICY_TABLE \<and> in_row (of_int n) r"
proof -
  from assms have "lo (hd OWNER_POLICY_TABLE) \<le> of_int n" "of_int n \<le> hi (last OWNER_POLICY_TABLE)"
    by (simp_all add: table_ends)
  with table_contiguous table_ends obtain r
    where r: "r \<in> set OWNER_POLICY_TABLE" "in_row (of_int n) r"
    by (blast dest: contiguous_cover)
  show ?thesis
  proof (rule ex1I [of _ r])
    from r show "r \<in> set OWNER_POLICY_TABLE \<and> in_row (of_int n) r" by simp
  next
    fix s
    assume "s \<in> set OWNER_POLICY_TABLE \<and> in_row (of_int n) s"
    then have "List.find (in_row (of_int n)) OWNER_POLICY_TABLE = Some s"
      by (simp add: find_in_ascending table_ascending)
    moreover from r have "List.find (in_row (of_int n)) OWNER_POLICY_TABLE = Some r"
      by (simp add: find_in_ascending table_ascending)
    ultimately show "s = r" by simp
  qed
qed

text \<open>
  C7. The table's rows ascend and every band is ordered, but the rows are not contiguous
  on amounts with cents: a row ends at a whole dollar and the next starts one dollar
  higher. At 60,000.50 no row contains the amount; the lookup then takes the first row
  of the table, so that the premium band there is 209 to 220, below the band at 60,000
  (225 to 263) and at 60,001 (268 to 306).
\<close>

theorem premium_table_gap_between_rows:
  "rows_ascending OWNER_POLICY_TABLE \<and>
   list_all (\<lambda>r. row_min r \<le> row_max r) OWNER_POLICY_TABLE \<and>
   filter (in_row 60000.50) OWNER_POLICY_TABLE = [] \<and>
   calcOwnersPolicyPremium 60000.50 Mid =
     \<lparr>res_min = 209, res_max = 220, chosen = 214.50, mode = Table\<rparr> \<and>
   calcOwnersPolicyPremium 60000 Mid =
     \<lparr>res_min = 225, res_max = 263, chosen = 244, mode = Table\<rparr> \<and>
   calcOwnersPolicyPremium 60001 Mid =
     \<lparr>res_min = 268, res_max = 306, chosen = 287, mode = Table\<rparr>"
proof (intro conjI)
  show "rows_ascending OWNER_POLICY_TABLE" by (rule table_ascending)
  show "list_all (\<lambda>r. row_min r \<le> row_max r) OWNER_POLICY_TABLE" by (rule table_bands_ordered)
  show "filter (in_row 60000.50) OWNER_POLICY_TABLE = []" by code_simp
  show "calcOwnersPolicyPremium 60000.50 Mid =
     \<lparr>res_min = 209, res_max = 220, chosen = 214.50, mode = Table\<rparr>" by code_simp
  show "calcOwnersPolicyPremium 60000 Mid =
     \<lparr>res_min = 225, res_max = 263, chosen = 244, mode = Table\<rparr>" by code_simp
  show "calcOwnersPolicyPremium 60001 Mid =
     \<lparr>res_min = 268, res_max = 306, chosen = 287, mode = Table\<rparr>" by code_simp
qed

lemma premium_at_ceiling_high: "chosen (calcOwnersPolicyPremium 1000000 High) = 2728"
  by code_simp

lemma overflow_step:
  fixes k :: nat
  assumes "1000000 + 10000 * of_nat k < a" "a \<le> 1000000 + 10000 * of_nat (k + 1)"
  shows "chosen (calcOwnersPolicyPremium a c) = 2728 + 22 * of_nat (k + 1)"
proof -
  have "(0 :: rat) \<le> of_nat k" by simp
  with assms have gt: "1000000 < a" by linarith
  have "\<lceil>(a - 1000000) / 10000\<rceil> = int (k + 1)"
  proof (rule ceiling_unique)
    from assms(1) show "of_int (int (k + 1)) - 1 < (a - 1000000) / 10000"
      by (simp add: field_simps)
    from assms(2) show "(a - 1000000) / 10000 \<le> of_int (int (k + 1))"
      by (simp add: field_simps)
  qed
  with gt show ?thesis by (simp add: calc_above_1m)
qed

text \<open>
  C8. In overflow mode the premium never decreases as the amount grows, and it is constant
  on each unit of 10,000 above the ceiling of 1,000,000: the amounts of unit number
  \<open>k + 1\<close> all cost 2728 plus \<open>k + 1\<close> increments of 22. Counted from the premium
  2728 at the ceiling, one dollar over the ceiling and a full unit over it both cost
  one increment more, and one dollar into the second unit costs two increments more.
\<close>

theorem overflow_premium_monotone_steps:
  "(\<forall>a b c d. 1000000 < a \<longrightarrow> a \<le> b \<longrightarrow>
      chosen (calcOwnersPolicyPremium a c) \<le> chosen (calcOwnersPolicyPremium b d)) \<and>
   (\<forall>a c (k :: nat). 1000000 + 10000 * of_nat k < a \<longrightarrow> a \<le> 1000000 + 10000 * of_nat (k + 1) \<longrightarrow>
      chosen (calcOwnersPolicyPremium a c) = 2728 + 22 * of_nat (k + 1)) \<and>
   chosen (calcOwnersPolicyPremium 1000000 High) = 2728 \<and>
   (\<forall>c. chosen (calcOwnersPolicyPremium (1000000 + 1) c) = 2728 + 22 \<and>
        chosen (calcOwnersPolicyPremium (1000000 + 10000) c) = 2728 + 22 \<and>
        chosen (calcOwnersPolicyPremium (1000000 + 10000 + 1) c) = 2728 + 2 * 22)"
proof (intro conjI allI impI)
  fix a b :: number and c d
  assume a: "1000000 < a" and ab: "a \<le> b"
  then have b: "1000000 < b" by simp
  from ab have "(a - 1000000) / 10000 \<le> (b - 1000000) / 10000"
    by (simp add: divide_right_mono)
  then have "\<lceil>(a - 1000000) / 10000\<rceil> \<le> \<lceil>(b - 1000000) / 10000\<rceil>"
    by (rule ceiling_mono)
  then show "chosen (calcOwnersPolicyPremium a c) \<le> chosen (calcOwnersPolicyPremium b d)"
    by (simp add: calc_above_1m [OF a] calc_above_1m [OF b])
next
  fix a :: number and c and k :: nat
  assume "1000000 + 10000 * of_nat k < a" "a \<le> 1000000 + 10000 * of_nat (k + 1)"
  then show "chosen (calcOwnersPolicyPremium a c) = 2728 + 22 * of_nat (k + 1)"
    by (rule overflow_step)
next
  show "chosen (calcOwnersPolicyPremium 1000000 High) = 2728"
    by (rule premium_at_ceiling_high)
next
  fix c
  show "chosen (calcOwnersPolicyPremium (1000000 + 1) c) = 2728 + 22"
    using overflow_step [of 0 "1000000 + 1" c] by simp
  show "chosen (calcOwnersPolicyPremium (1000000 + 10000) c) = 2728 + 22"
    using overflow_step [of 0 "1000000 + 10000" c] by simp
  show "chosen (calcOwnersPolicyPremium (1000000 + 10000 + 1) c) = 2728 + 2 * 22"
    using overflow_step [of 1 "1000000 + 10000 + 1" c] by simp
qed

theorem overflow_premium_monotone_steps_witness:
  "(1000000 :: number) < 1005000 \<and> (1005000 :: number) \<le> 1025000 \<and>
   chosen (calcOwnersPolicyPremium 1005000 Low) \<le> chosen (calcOwnersPolicyPremium 1025000 High) \<and>
   chosen (calcOwnersPolicyPremium 1005000 Low) = 2750 \<and>
   chosen (calcOwnersPolicyPremium 1025000 High) = 2794"
proof -
  have h: "(1000000 :: number) < 1005000" "(1005000 :: number) \<le> 1025000" by simp_all
  have s1: "chosen (calcOwnersPolicyPremium 1005000 Low) = 2750"
    using overflow_premium_monotone_steps [THEN conjunct2, THEN conjunct1, rule_format,
        of 0 1005000 Low] by simp
  have s2: "chosen (calcOwnersPolicyPremium 1025000 High) = 2794"
    using overflow_premium_monotone_steps [THEN conjunct2, THEN conjunct1, rule_format,
        of 2 1025000 High] by simp
  from overflow_premium_monotone_steps [THEN conjunct1, rule_format, OF h, of Low High] h s1 s2
  show ?thesis by simp
qed

section \<open>Properties of the title fees\<close>

lemma label_settlement_distinct:
  "label_owner_policy \<noteq> label_settlement" "label_title_processing \<noteq> label_settlement"
  "label_closing_processing \<noteq> label_settlement" "label_cpl \<noteq> label_settlement"
  "label_tieff \<noteq> label_settlement" "label_deed \<noteq> label_settlement"
  "label_simplifile \<noteq> label_settlement" "label_transfer \<noteq> label_settlement"
  by (simp_all add: label_owner_policy_def label_settlement_def label_title_processing_def
      label_closing_processing_def label_cpl_def label_tieff_def label_deed_def
      label_simplifile_def label_transfer_def js_def)

lemma round2_numeral [simp]: "round2 (numeral n) = numeral n"
  using round2_int [of "numeral n"] by simp

lemma schedule_cases:
  "getFeeScheduleForCounty c = VALPO_SCHEDULE \<or> getFeeScheduleForCounty c = STANDARD_SCHEDULE"
  by (simp add: getFeeScheduleForCounty_def Let_def)

lemma schedule_settlement:
  "settlementWithLoanSeller (getFeeScheduleForCounty c) = 390"
  "settlementCashSeller (getFeeScheduleForCounty c) = 290"
  using schedule_cases [of c] by (auto simp: VALPO_SCHEDULE_def STANDARD_SCHEDULE_def)

lemma settlement_line_v1:
  assumes "includeSettlementFee s"
  shows "filter (\<lambda>i. label i = label_settlement) (items (calcIhtSellerTitleFees s)) =
    [\<lparr>label = label_settlement, amount = (if transactionType s = With_loan then 390 else 290)\<rparr>]"
  using assms
  by (simp add: calcIhtSellerTitleFees_def finish_items_def Let_def label_settlement_distinct)

lemma settlement_line_v2:
  assumes "includeSettlementFee_v2 s"
  shows "filter (\<lambda>i. label i = label_settlement) (items (calcIhtSellerTitleFees_v2 s)) =
    [\<lparr>label = label_settlement, amount = (if transactionType_v2 s = With_loan then 195 else 145)\<rparr>]"
  using assms
  by (simp add: calcIhtSellerTitleFees_v2_def finish_items_def Let_def label_settlement_distinct
      schedule_settlement)

text \<open>
  C5, as the code has it. With the settlement toggle on, the fee list has exactly one
  settlement line. In the first variant its amount is the settlement constant of the
  transaction type, 390 with a loan and 290 for cash. In the second variant the
  constant of the resolved schedule is the full fee and the seller's line is one half
  of it: every schedule has the constants 390 and 290, and the line is 195 with a loan
  and 145 for cash.
\<close>

theorem settlement_line_amount:
  "(\<forall>s. includeSettlementFee s \<longrightarrow>
      filter (\<lambda>i. label i = label_settlement) (items (calcIhtSellerTitleFees s)) =
        [\<lparr>label = label_settlement,
          amount = (if transactionType s = With_loan then 390 else 290)\<rparr>]) \<and>
   (\<forall>s. includeSettlementFee_v2 s \<longrightarrow>
      filter (\<lambda>i. label i = label_settlement) (items (calcIhtSellerTitleFees_v2 s)) =
        [\<lparr>label = label_settlement,
          amount = (if transactionType_v2 s = With_loan
                    then settlementWithLoanSeller (getFeeScheduleForCounty (county_v2 s))
                    else settlementCashSeller (getFeeScheduleForCounty (county_v2 s))) / 2\<rparr>]) \<and>
   (\<forall>c. settlementWithLoanSeller (getFeeScheduleForCounty c) = 390 \<and>
        settlementCashSeller (getFeeScheduleForCounty c) = 290)"
  by (simp add: settlement_line_v1 settlement_line_v2 schedule_settlement)

theorem settlement_line_amount_witness:
  "(let s1 = \<lparr>transactionType = Cash, countyType = Other, useSimplifile = False,
              ownerPolicyPremium = 1043.50, includeSettlementFee = True, includeCPL = True,
              includeTIEFF = False, includeDeedRecording = True,
              includeTransferFeeSDF = True\<rparr>;
        s2 = \<lparr>transactionType_v2 = Cash, county_v2 = js ''Lake'', useSimplifile_v2 = True,
              ownerPolicyPremium_v2 = 1043.50, includeSettlementFee_v2 = True,
              includeCPL_v2 = True, includeTIEFF_v2 = False, includeDeedRecording_v2 = True,
              includeTransferFeeSDF_v2 = True\<rparr>
    in includeSettlementFee s1 \<and> includeSettlementFee_v2 s2 \<and>
       filter (\<lambda>i. label i = label_settlement) (items (calcIhtSellerTitleFees s1)) =
         [\<lparr>label = label_settlement, amount = 290\<rparr>] \<and>
       filter (\<lambda>i. label i = label_settlement) (items (calcIhtSellerTitleFees_v2 s2)) =
         [\<lparr>label = label_settlement, amount = 145\<rparr>])"
proof -
  let ?s1 = "\<lparr>transactionType = Cash, countyType = Other, useSimplifile = False,
              ownerPolicyPremium = 1043.50, includeSettlementFee = True, includeCPL = True,
              includeTIEFF = False, includeDeedRecording = True,
              includeTransferFeeSDF = True\<rparr>"
  let ?s2 = "\<lparr>transactionType_v2 = Cash, county_v2 = js ''Lake'', useSimplifile_v2 = True,
              ownerPolicyPremium_v2 = 1043.50, includeSettlementFee_v2 = True,
              includeCPL_v2 = True, includeTIEFF_v2 = False, includeDeedRecording_v2 = True,
              includeTransferFeeSDF_v2 = True\<rparr>"
  have h1: "includeSettlementFee ?s1" and h2: "includeSettlementFee_v2 ?s2" by simp_all
  note t = settlement_line_amount
  from t [THEN conjunct1, rule_format, OF h1]
    t [THEN conjunct2, THEN conjunct1, rule_format, OF h2]
    t [THEN conjunct2, THEN conjunct2, rule_format, of "js ''Lake''"]
  show ?thesis by (simp add: Let_def)
qed

text \<open>
  The claim as stated fails in the second variant: for a sale with a loan in Marion
  county the schedule's settlement constant is 390 and the settlement line is 195.
\<close>

theorem settlement_line_halved_counterexample:
  "(let s = \<lparr>transactionType_v2 = With_loan, county_v2 = js ''Marion'',
             useSimplifile_v2 = True, ownerPolicyPremium_v2 = 0,
             includeSettlementFee_v2 = True, includeCPL_v2 = True, includeTIEFF_v2 = True,
             includeDeedRecording_v2 = False, includeTransferFeeSDF_v2 = False\<rparr>;
        line = filter (\<lambda>i. label i = label_settlement) (items (calcIhtSellerTitleFees_v2 s))
    in includeSettlementFee_v2 s \<and>
       settlementWithLoanSeller (getFeeScheduleForCounty (county_v2 s)) = 390 \<and>
       line = [\<lparr>label = label_settlement, amount = 195\<rparr>] \<and>
       map amount line \<noteq> [settlementWithLoanSeller (getFeeScheduleForCounty (county_v2 s))])"
  by (simp add: Let_def settlement_line_v2 schedule_settlement)

section \<open>Properties of the date functions\<close>

lemma div_bounds:
  fixes x k :: int
  assumes "0 < k"
  shows "k * (x div k) \<le> x" and "x - (k - 1) \<le> k * (x div k)"
proof -
  have "k * (x div k) = x - x mod k"
    by (simp add: minus_mod_eq_mult_div [symmetric])
  moreover from assms have "0 \<le> x mod k" "x mod k < k" by simp_all
  ultimately show "k * (x div k) \<le> x" and "x - (k - 1) \<le> k * (x div k)"
    by linarith+
qed

lemma div_succ:
  fixes x k :: int
  assumes "1 < k"
  shows "(x + 1) div k = (if k dvd x + 1 then x div k + 1 else x div k)"
proof (cases "k dvd x + 1")
  case True
  then obtain q where q: "x + 1 = k * q" by (auto simp: dvd_def)
  then have x: "x = k * (q - 1) + (k - 1)" by (simp add: algebra_simps)
  from assms have "x div k = q - 1"
    by (intro int_div_pos_eq [OF x]) simp_all
  moreover from q assms have "(x + 1) div k = q" by simp
  ultimately show ?thesis using True by simp
next
  case False
  define r where "r = x mod k"
  define q where "q = x div k"
  have x: "x = k * q + r" by (simp add: q_def r_def)
  from assms have r: "0 \<le> r" "r < k" by (simp_all add: r_def)
  have "r + 1 \<noteq> k"
  proof
    assume "r + 1 = k"
    with x have "x + 1 = k * (q + 1)" by (simp add: algebra_simps)
    with False show False by simp
  qed
  with r have r1: "0 \<le> r + 1" "r + 1 < k" by simp_all
  from x have "x + 1 = k * q + (r + 1)" by simp
  from int_div_pos_eq [OF this r1] have "(x + 1) div k = q" .
  with False show ?thesis by (simp add: q_def)
qed

lemma dvd_shift:
  fixes y :: int
  shows "4 dvd y - 1968 \<longleftrightarrow> 4 dvd y" "100 dvd y - 1900 \<longleftrightarrow> 100 dvd y"
    "400 dvd y - 1600 \<longleftrightarrow> 400 dvd y"
  by (rule dvd_diff_left_iff, simp)+

lemma dvd_chain:
  fixes y :: int
  shows "400 dvd y \<Longrightarrow> 100 dvd y" and "100 dvd y \<Longrightarrow> 4 dvd y"
proof -
  have "(100 :: int) dvd 400" "(4 :: int) dvd 100" by simp_all
  then show "400 dvd y \<Longrightarrow> 100 dvd y" and "100 dvd y \<Longrightarrow> 4 dvd y"
    by (blast intro: dvd_trans)+
qed

lemma DaysInYear_dvd:
  "DaysInYear y = (if 4 dvd y \<and> (\<not> 100 dvd y \<or> 400 dvd y) then 366 else 365)"
  using dvd_chain [of y] by (auto simp: DaysInYear_def mod_eq_0_iff_dvd)

lemma DayFromYear_step: "DayFromYear (y + 1) = DayFromYear y + DaysInYear y"
proof -
  have a: "(y + 1 - 1969) div 4 = (if 4 dvd y then (y - 1969) div 4 + 1 else (y - 1969) div 4)"
    using div_succ [of 4 "y - 1969"] dvd_shift(1) [of y] by (simp add: algebra_simps)
  have b: "(y + 1 - 1901) div 100 =
      (if 100 dvd y then (y - 1901) div 100 + 1 else (y - 1901) div 100)"
    using div_succ [of 100 "y - 1901"] dvd_shift(2) [of y] by (simp add: algebra_simps)
  have c: "(y + 1 - 1601) div 400 =
      (if 400 dvd y then (y - 1601) div 400 + 1 else (y - 1601) div 400)"
    using div_succ [of 400 "y - 1601"] dvd_shift(3) [of y] by (simp add: algebra_simps)
  show ?thesis
    unfolding DayFromYear_def a b c DaysInYear_dvd
    using dvd_chain [of y] by (auto simp: algebra_simps)
qed

lemma DaysInYear_range: "DaysInYear y = 365 \<or> DaysInYear y = 366"
  by (simp add: DaysInYear_def)

lemma DayFromYear_less: "DayFromYear y < DayFromYear (y + 1)"
  using DaysInYear_range [of y] by (auto simp: DayFromYear_step)

lemma DayFromYear_mono_nat: "DayFromYear y \<le> DayFromYear (y + int n)"
proof (induction n)
  case 0
  then show ?case by simp
next
  case (Suc n)
  have e: "y + int (Suc n) = y + int n + 1" by simp
  have "DayFromYear (y + int n) < DayFromYear (y + int n + 1)"
    by (rule DayFromYear_less)
  with Suc show ?case unfolding e by linarith
qed

lemma DayFromYear_mono: "y \<le> z \<Longrightarrow> DayFromYear y \<le> DayFromYear z"
  using DayFromYear_mono_nat [of y "nat (z - y)"] by simp

lemma DayFromYear_bounds:
  "146097 * (y - 1970) - 600 \<le> 400 * DayFromYear y"
  "400 * DayFromYear y \<le> 146097 * (y - 1970) + 600"
proof -
  define a where "a = (y - 1969) div 4"
  define b where "b = (y - 1901) div 100"
  define c where "c = (y - 1601) div 400"
  have d: "DayFromYear y = 365 * (y - 1970) + a - b + c"
    by (simp add: DayFromYear_def a_def b_def c_def)
  have f: "4 * a \<le> y - 1969" "y - 1972 \<le> 4 * a"
    "100 * b \<le> y - 1901" "y - 2000 \<le> 100 * b"
    "400 * c \<le> y - 1601" "y - 2000 \<le> 400 * c"
    using div_bounds [of 4 "y - 1969"] div_bounds [of 100 "y - 1901"]
      div_bounds [of 400 "y - 1601"]
    by (simp_all add: a_def b_def c_def)
  have e: "400 * DayFromYear y = 146000 * y - 287620000 + 400 * a - 400 * b + 400 * c"
    by (simp add: d)
  from f show "146097 * (y - 1970) - 600 \<le> 400 * DayFromYear y"
    unfolding e by simp
  from f show "400 * DayFromYear y \<le> 146097 * (y - 1970) + 600"
    unfolding e by simp
qed

text \<open>\<open>YearFromTime\<close> is the year of ECMA-262: the one whose days contain the day of \<open>t\<close>.\<close>

lemma YearFromTime_bounds:
  "DayFromYear (YearFromTime t) \<le> Day t" "Day t < DayFromYear (YearFromTime t + 1)"
proof -
  define d where "d = Day t"
  define k where "k = (400 * d) div 146097"
  have k: "146097 * k \<le> 400 * d" "400 * d - 146096 \<le> 146097 * k"
    using div_bounds [of 146097 "400 * d"] by (simp_all add: k_def)
  have y: "YearFromTime t =
      (if DayFromYear (1970 + k + 1) \<le> d then 1970 + k + 1
       else if DayFromYear (1970 + k) \<le> d then 1970 + k else 1970 + k - 1)"
    by (simp add: YearFromTime_def Let_def d_def k_def)
  define u where "u = DayFromYear (1970 + k + 1 + 1)"
  define l where "l = DayFromYear (1970 + k - 1)"
  have "146097 * k + 291594 \<le> 400 * u"
    using DayFromYear_bounds(1) [of "1970 + k + 1 + 1"] by (simp add: u_def)
  with k have "d < u" by simp
  then have up: "d < DayFromYear (1970 + k + 1 + 1)" by (simp add: u_def)
  have "400 * l \<le> 146097 * k - 145497"
    using DayFromYear_bounds(2) [of "1970 + k - 1"] by (simp add: l_def)
  with k have "l \<le> d" by simp
  then have low: "DayFromYear (1970 + k - 1) \<le> d" by (simp add: l_def)
  show "DayFromYear (YearFromTime t) \<le> Day t"
    unfolding y d_def [symmetric] using low by simp
  show "Day t < DayFromYear (YearFromTime t + 1)"
    unfolding y d_def [symmetric] using up by auto
qed

lemma YearFromTime_unique:
  assumes "DayFromYear y \<le> Day t" "Day t < DayFromYear (y + 1)"
  shows "YearFromTime t = y"
proof (rule ccontr)
  assume ne: "YearFromTime t \<noteq> y"
  note b = YearFromTime_bounds [of t]
  show False
  proof (cases "YearFromTime t < y")
    case True
    then have "DayFromYear (YearFromTime t + 1) \<le> DayFromYear y"
      by (intro DayFromYear_mono) simp
    with b assms show False by linarith
  next
    case False
    with ne have "DayFromYear (y + 1) \<le> DayFromYear (YearFromTime t)"
      by (intro DayFromYear_mono) simp
    with b assms show False by linarith
  qed
qed

lemma Day_MakeDate: "0 \<le> r \<Longrightarrow> r < msPerDay \<Longrightarrow> Day (MakeDate d r) = d"
  by (simp add: Day_def MakeDate_def msPerDay_def)

lemma YearFromTime_TimeFromYear: "YearFromTime (MakeDate (DayFromYear y) 0) = y"
  by (rule YearFromTime_unique) (simp_all add: Day_MakeDate msPerDay_def DayFromYear_less)

lemma MonthFromTime_range: "0 \<le> MonthFromTime t \<and> MonthFromTime t \<le> 11"
  by (simp add: MonthFromTime_def Let_def)

lemma month_start_plus_date:
  "DaysBeforeMonth (YearFromTime t) (MonthFromTime t) + DateFromTime t = DayWithinYear t + 1"
  by (simp add: DaysBeforeMonth_def DateFromTime_def InLeapYear_def Let_def)

text \<open>
  Year, month and day of the month of a time value give back its day number, also when
  the day of the month is moved by \<open>k\<close> days.
\<close>

lemma MakeDay_of_fields:
  "MakeDay (YearFromTime t) (MonthFromTime t) (DateFromTime t + k) = Day t + k"
proof -
  from MonthFromTime_range [of t]
  have m: "MonthFromTime t div 12 = 0" "MonthFromTime t mod 12 = MonthFromTime t"
    by simp_all
  from month_start_plus_date [of t] show ?thesis
    by (simp add: MakeDay_def Let_def m DayWithinYear_def)
qed

lemma time_split: "Day t * msPerDay + TimeWithinDay t = t"
  by (simp add: Day_def TimeWithinDay_def)

lemma TimeClip_in: "\<bar>t\<bar> \<le> 8640000000000000 \<Longrightarrow> TimeClip t = Some t"
  by (simp add: TimeClip_def)

lemma addDaysUTC_eq:
  assumes "\<bar>t\<bar> \<le> 8640000000000000"
  shows "addDaysUTC (Some t) days = TimeClip (t + days * msPerDay)"
proof -
  have "MakeDate (MakeDay (YearFromTime t) (MonthFromTime t) (DateFromTime t + days))
      (TimeWithinDay t) = t + days * msPerDay"
    using MakeDay_of_fields [of t days] time_split [of t]
    by (simp add: MakeDate_def algebra_simps)
  then show ?thesis
    by (simp add: addDaysUTC_def setUTCDate_def getUTCDate_def getTime_def new_Date_def
        TimeClip_in [OF assms] Let_def)
qed

lemma addDaysUTC_v2_eq:
  assumes "\<bar>t\<bar> \<le> 8640000000000000"
  shows "addDaysUTC_v2 (Some t) days = TimeClip (t + days * msPerDay)"
proof -
  have "addDaysUTC_v2 (Some t) days = addDaysUTC (Some t) days"
    by (simp only: addDaysUTC_def addDaysUTC_v2_def)
  then show ?thesis by (simp only: addDaysUTC_eq [OF assms])
qed

lemma MakeFullYear_id: "\<not> (0 \<le> y \<and> y \<le> 99) \<Longrightarrow> MakeFullYear y = y"
  by (auto simp: MakeFullYear_def)

lemma Date_UTC_of_fields:
  assumes "\<not> (0 \<le> YearFromTime t \<and> YearFromTime t \<le> 99)"
  shows "Date_UTC (getUTCFullYear (Some t)) (getUTCMonth (Some t)) (getUTCDate (Some t)) =
    TimeClip (Day t * msPerDay)"
  using MakeDay_of_fields [of t 0]
  by (simp add: Date_UTC_def MakeFullYear_id [OF assms] getUTCFullYear_def getUTCMonth_def
      getUTCDate_def MakeDate_def)

lemma Date_UTC_jan1:
  assumes "\<not> (0 \<le> y \<and> y \<le> 99)"
  shows "Date_UTC (Some y) (Some 0) (Some 1) = TimeClip (DayFromYear y * msPerDay)"
  by (simp add: Date_UTC_def MakeFullYear_id [OF assms] MakeDay_def DaysBeforeMonth_def
      MakeDate_def)

text \<open>
  The range of \<^verbatim>\<open>Date\<close> starts on day -100,000,000, in the year -271821; the year
  -271820 is the first whose 1 January is in the range.
\<close>

lemma DayFromYear_first_years:
  "DayFromYear (- 271821) = - 100000109" "DayFromYear (- 271820) = - 99999744"
  by (simp_all add: DayFromYear_def)

lemma Day_mono: "s \<le> t \<Longrightarrow> Day s \<le> Day t"
  unfolding Day_def by (rule zdiv_mono1) (simp_all add: msPerDay_def)

lemma Day_lower: "- 8640000000000000 \<le> t \<Longrightarrow> - 100000000 \<le> Day t"
  using Day_mono [of "- 8640000000000000" t] by (simp add: Day_def msPerDay_def)

lemma YearFromTime_lower:
  assumes "- 8640000000000000 \<le> t"
  shows "- 271821 \<le> YearFromTime t"
proof (rule ccontr)
  assume "\<not> - 271821 \<le> YearFromTime t"
  then have "YearFromTime t + 1 \<le> - 271821" by simp
  then have "DayFromYear (YearFromTime t + 1) \<le> DayFromYear (- 271821)"
    by (rule DayFromYear_mono)
  with YearFromTime_bounds(2) [of t] Day_lower [OF assms] show False
    by (simp add: DayFromYear_first_years)
qed

lemma Day_times_le: "Day t * msPerDay \<le> t"
  using time_split [of t] by (simp add: TimeWithinDay_def msPerDay_def) 

section \<open>Properties of the tax proration\<close>

lemma or_number_zero [simp]: "or_number x 0 = x"
  by (simp add: or_number_def)

lemma before_day_iff: "t < d * msPerDay \<longleftrightarrow> Day t < d"
proof -
  define q where "q = t div 86400000"
  have "86400000 * q \<le> t" "t - 86399999 \<le> 86400000 * q"
    using div_bounds [of 86400000 t] by (simp_all add: q_def)
  then have "t < d * 86400000 \<longleftrightarrow> q < d" by auto
  then show ?thesis by (simp add: Day_def msPerDay_def q_def)
qed

lemma Day_of_midnight: "Day (d * msPerDay) = d"
  by (simp add: Day_def msPerDay_def)

lemma Day_minus_one: "Day (t - msPerDay) = Day t - 1"
proof -
  have "(t + (- 1) * msPerDay) div msPerDay = - 1 + t div msPerDay"
    by (rule div_mult_self1) (simp add: msPerDay_def)
  then show ?thesis by (simp add: Day_def)
qed

lemma floor_ms: "Math_floor (of_int (e * msPerDay - s * msPerDay) / of_int (24 * 60 * 60 * 1000)) = e - s"
proof -
  have "(of_int (e * msPerDay - s * msPerDay) :: rat) / of_int (24 * 60 * 60 * 1000) = of_int (e - s)"
    by (simp add: msPerDay_def diff_divide_distrib)
  then show ?thesis by (simp only: Math_floor_def floor_of_int)
qed

text \<open>
  The days the code counts: none when the cutoff \<open>pe\<close> is before 1 January of the year,
  otherwise the days from 1 January to the cutoff, both included. The closing time \<open>c\<close>
  is a time value; its year is not one of the years 0 to 99 and not the year -271821,
  whose 1 January is before the range of \<^verbatim>\<open>Date\<close>. The cutoff is the closing time or
  one day earlier.
\<close>

lemma jan1_in_range:
  assumes v: "\<bar>c\<bar> \<le> 8640000000000000" and f: "YearFromTime c \<noteq> - 271821"
  shows "- 99999744 \<le> DayFromYear (YearFromTime c)"
    and "\<bar>DayFromYear (YearFromTime c) * msPerDay\<bar> \<le> 8640000000000000"
    and "\<bar>c - msPerDay\<bar> \<le> 8640000000000000"
proof -
  from v have "- 8640000000000000 \<le> c" by simp
  then have "- 271821 \<le> YearFromTime c" by (rule YearFromTime_lower)
  with f have "- 271820 \<le> YearFromTime c" by simp
  then have "DayFromYear (- 271820) \<le> DayFromYear (YearFromTime c)"
    by (rule DayFromYear_mono)
  then show lo: "- 99999744 \<le> DayFromYear (YearFromTime c)"
    by (simp add: DayFromYear_first_years)
  define j where "j = DayFromYear (YearFromTime c)"
  have "j \<le> Day c" by (simp add: j_def YearFromTime_bounds)
  then have "j * 86400000 \<le> Day c * 86400000" by simp
  with Day_times_le [of c] have up: "j * 86400000 \<le> c" by (simp add: msPerDay_def)
  from lo have low: "- 8639977881600000 \<le> j * 86400000" by (simp add: j_def)
  from up low v show "\<bar>DayFromYear (YearFromTime c) * msPerDay\<bar> \<le> 8640000000000000"
    by (simp add: j_def [symmetric] msPerDay_def)
  from up low v show "\<bar>c - msPerDay\<bar> \<le> 8640000000000000"
    by (simp add: msPerDay_def)
qed

lemma days_accrued:
  assumes v: "\<bar>c\<bar> \<le> 8640000000000000"
    and y: "\<not> (0 \<le> YearFromTime c \<and> YearFromTime c \<le> 99)"
    and f: "YearFromTime c \<noteq> - 271821"
    and pe: "pe \<le> c" "c - msPerDay \<le> pe"
  shows "(if js_less (getTime (Some pe))
              (getTime (new_Date (Date_UTC (Some (YearFromTime c)) (Some 0) (Some 1))))
          then Some 0
          else daysBetweenInclusiveUTC
                 (new_Date (Date_UTC (Some (YearFromTime c)) (Some 0) (Some 1))) (Some pe)) =
         Some (if Day pe < DayFromYear (YearFromTime c) then 0
               else Day pe - DayFromYear (YearFromTime c) + 1)"
proof -
  define yr where "yr = YearFromTime c"
  define jan1 where "jan1 = DayFromYear yr * msPerDay"
  note r = jan1_in_range [OF v f, folded yr_def]
  from r(2) have jc: "TimeClip jan1 = Some jan1"
    by (simp add: jan1_def TimeClip_in)
  from y have "Date_UTC (Some yr) (Some 0) (Some 1) = TimeClip (DayFromYear yr * msPerDay)"
    unfolding yr_def by (rule Date_UTC_jan1)
  then have "Date_UTC (Some yr) (Some 0) (Some 1) = Some jan1"
    using jc by (simp only: jan1_def)
  then have j: "new_Date (Date_UTC (Some yr) (Some 0) (Some 1)) = Some jan1"
    using jc by (simp add: new_Date_def)
  have lt: "js_less (getTime (Some pe)) (getTime (Some jan1)) \<longleftrightarrow> Day pe < DayFromYear yr"
    by (simp add: js_less_def getTime_def jan1_def before_day_iff)
  have "daysBetweenInclusiveUTC (Some jan1) (Some pe) = Some (Day pe - DayFromYear yr + 1)"
    if ge: "DayFromYear yr \<le> Day pe"
  proof -
    have yj: "YearFromTime jan1 = yr"
      using YearFromTime_TimeFromYear [of yr] by (simp add: jan1_def MakeDate_def)
    from y have "\<not> (0 \<le> YearFromTime jan1 \<and> YearFromTime jan1 \<le> 99)"
      by (simp add: yj yr_def)
    then have "Date_UTC (getUTCFullYear (Some jan1)) (getUTCMonth (Some jan1))
        (getUTCDate (Some jan1)) = TimeClip (Day jan1 * msPerDay)"
      by (rule Date_UTC_of_fields)
    then have s: "Date_UTC (getUTCFullYear (Some jan1)) (getUTCMonth (Some jan1))
        (getUTCDate (Some jan1)) = Some (DayFromYear yr * msPerDay)"
      using jc by (simp add: jan1_def Day_of_midnight)
    from pe(1) have "Day pe \<le> Day c" by (rule Day_mono)
    with YearFromTime_bounds(2) [of c] have "Day pe < DayFromYear (yr + 1)"
      by (simp add: yr_def)
    with ge have yp: "YearFromTime pe = yr" by (rule YearFromTime_unique)
    from y have "\<not> (0 \<le> YearFromTime pe \<and> YearFromTime pe \<le> 99)"
      by (simp add: yp yr_def)
    then have e0: "Date_UTC (getUTCFullYear (Some pe)) (getUTCMonth (Some pe))
        (getUTCDate (Some pe)) = TimeClip (Day pe * msPerDay)"
      by (rule Date_UTC_of_fields)
    from ge have "DayFromYear yr * 86400000 \<le> Day pe * 86400000" by simp
    moreover from Day_times_le [of pe] pe(1) have "Day pe * 86400000 \<le> c"
      by (simp add: msPerDay_def)
    ultimately have "\<bar>Day pe * msPerDay\<bar> \<le> 8640000000000000"
      using r(2) v by (simp add: msPerDay_def)
    with e0 have e: "Date_UTC (getUTCFullYear (Some pe)) (getUTCMonth (Some pe))
        (getUTCDate (Some pe)) = Some (Day pe * msPerDay)"
      by (simp add: TimeClip_in)
    from ge have "\<not> Day pe * msPerDay < DayFromYear yr * msPerDay"
      by (simp add: msPerDay_def)
    then show ?thesis
      unfolding daysBetweenInclusiveUTC_def Let_def s e
      by (simp only: js_less_def prod.case option.case if_False floor_ms)
  qed
  with lt show ?thesis
    unfolding yr_def [symmetric] j by simp
qed

lemma days_accrued_v2:
  assumes v: "\<bar>c\<bar> \<le> 8640000000000000"
    and y: "\<not> (0 \<le> YearFromTime c \<and> YearFromTime c \<le> 99)"
    and f: "YearFromTime c \<noteq> - 271821"
    and pe: "pe \<le> c" "c - msPerDay \<le> pe"
  shows "(if js_less (getTime (Some pe))
              (getTime (new_Date (Date_UTC (Some (YearFromTime c)) (Some 0) (Some 1))))
          then Some 0
          else daysBetweenInclusiveUTC_v2
                 (new_Date (Date_UTC (Some (YearFromTime c)) (Some 0) (Some 1))) (Some pe)) =
         Some (if Day pe < DayFromYear (YearFromTime c) then 0
               else Day pe - DayFromYear (YearFromTime c) + 1)"
proof -
  have eq: "daysBetweenInclusiveUTC_v2 a b = daysBetweenInclusiveUTC a b" for a b
    by (simp add: daysBetweenInclusiveUTC_v2_def daysBetweenInclusiveUTC_def)
  show ?thesis
    unfolding eq by (rule days_accrued [OF assms])
qed

lemma unpaid_clamped:
  fixes p q :: number
  assumes "0 \<le> q"
  shows "max (max p 0 - q) 0 = max (p - q) 0"
  using assms by (simp add: max_def)

lemma cutoff_time:
  assumes v: "\<bar>c\<bar> \<le> 8640000000000000" and f: "YearFromTime c \<noteq> - 271821"
  shows "(if p = Day_before then addDaysUTC (Some c) (- 1) else Some c) =
      Some (if p = Day_before then c - msPerDay else c)"
    and "(if p = Day_before then addDaysUTC_v2 (Some c) (- 1) else Some c) =
      Some (if p = Day_before then c - msPerDay else c)"
  using jan1_in_range(3) [OF v f]
  by (simp_all add: addDaysUTC_eq [OF v] addDaysUTC_v2_eq [OF v] TimeClip_in)

text \<open>
  On the settings with each stored installment amount clamped at zero, the code computes
  the proration of the specification.
\<close>

lemma calc_eq_spec:
  assumes v: "\<bar>closing\<bar> \<le> 8640000000000000"
    and y: "\<not> (0 \<le> YearFromTime closing \<and> YearFromTime closing \<le> 99)"
    and f: "YearFromTime closing \<noteq> - 271821"
  shows "calcIndianaTaxProration (Some closing) tax =
    spec_prorate closing
      (tax\<lparr>springPaidAmount := max (springPaidAmount tax) 0,
           fallPaidAmount := max (fallPaidAmount tax) 0\<rparr>)"
proof -
  define pe where "pe = (if prorateThrough tax = Day_before then closing - msPerDay else closing)"
  have pe1: "(if prorateThrough tax = Day_before then addDaysUTC (Some closing) (- 1)
      else Some closing) = Some pe"
    by (simp only: cutoff_time(1) [OF v f] pe_def)
  have "pe \<le> closing" "closing - msPerDay \<le> pe" by (simp_all add: pe_def msPerDay_def)
  note d = days_accrued [OF v y f this]
  have q: "0 \<le> (if springPaid tax then max (springPaidAmount tax) 0 else 0) +
      (if fallPaid tax then max (fallPaidAmount tax) 0 else 0)"
    by simp
  have l: "isLeapYear (Some z) \<longleftrightarrow> z mod 400 = 0 \<or> (z mod 4 = 0 \<and> z mod 100 \<noteq> 0)" for z
    by (simp add: isLeapYear_def)
  have g: "getUTCFullYear (Some closing) = Some (YearFromTime closing)"
    by (simp add: getUTCFullYear_def)
  show ?thesis
    unfolding calcIndianaTaxProration_def spec_prorate_def Let_def g pe1 d or_number_zero l
    by (simp add: pe_def unpaid_clamped [OF q])
qed

lemma calc_v2_eq_spec:
  assumes v: "\<bar>closing\<bar> \<le> 8640000000000000"
    and y: "\<not> (0 \<le> YearFromTime closing \<and> YearFromTime closing \<le> 99)"
    and f: "YearFromTime closing \<noteq> - 271821"
  shows "calcIndianaTaxProration_v2 (Some closing) tax =
    spec_prorate closing
      (tax\<lparr>springPaidAmount := max (springPaidAmount tax) 0,
           fallPaidAmount := max (fallPaidAmount tax) 0\<rparr>)"
proof -
  define pe where "pe = (if prorateThrough tax = Day_before then closing - msPerDay else closing)"
  have pe1: "(if prorateThrough tax = Day_before then addDaysUTC_v2 (Some closing) (- 1)
      else Some closing) = Some pe"
    by (simp only: cutoff_time(2) [OF v f] pe_def)
  have "pe \<le> closing" "closing - msPerDay \<le> pe" by (simp_all add: pe_def msPerDay_def)
  note d = days_accrued_v2 [OF v y f this]
  have q: "0 \<le> (if springPaid tax then max (springPaidAmount tax) 0 else 0) +
      (if fallPaid tax then max (fallPaidAmount tax) 0 else 0)"
    by simp
  have l: "isLeapYear_v2 (Some z) \<longleftrightarrow> z mod 400 = 0 \<or> (z mod 4 = 0 \<and> z mod 100 \<noteq> 0)" for z
    by (simp add: isLeapYear_v2_def)
  have g: "getUTCFullYear (Some closing) = Some (YearFromTime closing)"
    by (simp add: getUTCFullYear_def)
  have ymd: "ymd_v2 t = ymd t" for t
    by (simp add: ymd_v2_def ymd_def)
  show ?thesis
    unfolding calcIndianaTaxProration_v2_def spec_prorate_def Let_def g pe1 d or_number_zero l ymd
    by (simp add: pe_def unpaid_clamped [OF q])
qed

lemma clamp_id:
  assumes "0 \<le> springPaidAmount tax" "0 \<le> fallPaidAmount tax"
  shows "tax\<lparr>springPaidAmount := max (springPaidAmount tax) 0,
             fallPaidAmount := max (fallPaidAmount tax) 0\<rparr> = tax"
  using assms by (simp add: max_def)

text \<open>
  C1, as the code has it. Take a closing date with the time value \<open>closing\<close>, within the
  range of \<^verbatim>\<open>Date\<close>, whose calendar year is not one of the years 0 to 99 and not the
  year -271821, the first and partial year of the range. Both variants return the
  breakdown of the specification, computed on the settings with each stored installment
  amount clamped at zero: the days in the year are 365 when forced, otherwise 366 in a
  leap year and 365 in any other; the daily rate is the prior-year tax, clamped at zero,
  over the days in the year; the cutoff is the day before the closing date under the
  day-before policy and the closing date otherwise; no day accrues when the cutoff is
  before 1 January of the closing year, otherwise the days from 1 January to the
  cutoff, both included; the accrued amount is the daily rate times the days accrued;
  the paid total adds, for each installment flagged paid, its amount or zero if the
  amount is negative; the unpaid prior-year balance is the prior-year tax less the paid
  total, clamped at zero; the total debit is the unpaid balance plus the accrued amount.
  When no stored installment amount is negative, the breakdown is the one of the
  specification on the settings as they are.
\<close>

theorem tax_proration_breakdown:
  assumes "\<bar>closing\<bar> \<le> 8640000000000000"
    and "\<not> (0 \<le> YearFromTime closing \<and> YearFromTime closing \<le> 99)"
    and "YearFromTime closing \<noteq> - 271821"
  shows
    "calcIndianaTaxProration (Some closing) tax =
       spec_prorate closing
         (tax\<lparr>springPaidAmount := max (springPaidAmount tax) 0,
              fallPaidAmount := max (fallPaidAmount tax) 0\<rparr>) \<and>
     calcIndianaTaxProration_v2 (Some closing) tax =
       spec_prorate closing
         (tax\<lparr>springPaidAmount := max (springPaidAmount tax) 0,
              fallPaidAmount := max (fallPaidAmount tax) 0\<rparr>) \<and>
     (0 \<le> springPaidAmount tax \<and> 0 \<le> fallPaidAmount tax \<longrightarrow>
        calcIndianaTaxProration (Some closing) tax = spec_prorate closing tax \<and>
        calcIndianaTaxProration_v2 (Some closing) tax = spec_prorate closing tax)"
proof (intro conjI impI)
  show a: "calcIndianaTaxProration (Some closing) tax =
      spec_prorate closing
        (tax\<lparr>springPaidAmount := max (springPaidAmount tax) 0,
             fallPaidAmount := max (fallPaidAmount tax) 0\<rparr>)"
    using assms by (rule calc_eq_spec)
  show b: "calcIndianaTaxProration_v2 (Some closing) tax =
      spec_prorate closing
        (tax\<lparr>springPaidAmount := max (springPaidAmount tax) 0,
             fallPaidAmount := max (fallPaidAmount tax) 0\<rparr>)"
    using assms by (rule calc_v2_eq_spec)
  assume "0 \<le> springPaidAmount tax \<and> 0 \<le> fallPaidAmount tax"
  then have c: "tax\<lparr>springPaidAmount := max (springPaidAmount tax) 0,
      fallPaidAmount := max (fallPaidAmount tax) 0\<rparr> = tax"
    by (simp add: clamp_id)
  from a show "calcIndianaTaxProration (Some closing) tax = spec_prorate closing tax"
    by (simp only: c)
  from b show "calcIndianaTaxProration_v2 (Some closing) tax = spec_prorate closing tax"
    by (simp only: c)
qed

text \<open>
  The witness is Example D of the specification: prior-year tax 3650, 365 days forced,
  closing on 10 January 2026, the time value 1768003200000, under the day-before
  policy.
\<close>

theorem tax_proration_breakdown_witness:
  "(let closing = 1768003200000;
        tax = \<lparr>priorYearTax = 3650, springPaid = False, springPaidAmount = 0,
               fallPaid = False, fallPaidAmount = 0, prorateThrough = Day_before,
               force365 = True\<rparr>
    in Date_UTC (Some 2026) (Some 0) (Some 10) = Some closing \<and>
       \<bar>closing\<bar> \<le> 8640000000000000 \<and>
       \<not> (0 \<le> YearFromTime closing \<and> YearFromTime closing \<le> 99) \<and>
       YearFromTime closing \<noteq> - 271821 \<and>
       0 \<le> springPaidAmount tax \<and> 0 \<le> fallPaidAmount tax \<and>
       calcIndianaTaxProration (Some closing) tax =
         \<lparr>prorationEndYMD = js ''2026-01-09'', daysInYear = 365, dailyRate = 10,
          daysAccrued = Some 9, accruedThisYear = Some 90, paidTotal = 0,
          unpaidPriorYear = 3650, totalDebit = Some 3740\<rparr> \<and>
       calcIndianaTaxProration_v2 (Some closing) tax =
         calcIndianaTaxProration (Some closing) tax)"
proof -
  let ?c = "1768003200000 :: int"
  let ?t = "\<lparr>priorYearTax = 3650, springPaid = False, springPaidAmount = 0,
               fallPaid = False, fallPaidAmount = 0, prorateThrough = Day_before,
               force365 = True\<rparr>"
  have u: "Date_UTC (Some 2026) (Some 0) (Some 10) = Some ?c" by code_simp
  have v: "\<bar>?c\<bar> \<le> 8640000000000000" by simp
  have y: "\<not> (0 \<le> YearFromTime ?c \<and> YearFromTime ?c \<le> 99)" by code_simp
  have f: "YearFromTime ?c \<noteq> - 271821" by code_simp
  have n: "0 \<le> springPaidAmount ?t \<and> 0 \<le> fallPaidAmount ?t" by simp
  have s: "spec_prorate ?c ?t =
      \<lparr>prorationEndYMD = js ''2026-01-09'', daysInYear = 365, dailyRate = 10,
       daysAccrued = Some 9, accruedThisYear = Some 90, paidTotal = 0,
       unpaidPriorYear = 3650, totalDebit = Some 3740\<rparr>"
    by code_simp
  from tax_proration_breakdown [OF v y f, of ?t, THEN conjunct2, THEN conjunct2, rule_format,
      OF n]
  have e: "calcIndianaTaxProration (Some ?c) ?t = spec_prorate ?c ?t"
    and e2: "calcIndianaTaxProration_v2 (Some ?c) ?t = spec_prorate ?c ?t"
    by blast+
  from e s have c1: "calcIndianaTaxProration (Some ?c) ?t =
      \<lparr>prorationEndYMD = js ''2026-01-09'', daysInYear = 365, dailyRate = 10,
       daysAccrued = Some 9, accruedThisYear = Some 90, paidTotal = 0,
       unpaidPriorYear = 3650, totalDebit = Some 3740\<rparr>"
    by (rule trans)
  from e2 e have c2: "calcIndianaTaxProration_v2 (Some ?c) ?t =
      calcIndianaTaxProration (Some ?c) ?t"
    by (rule trans [OF _ sym])
  from u v y f n c1 c2 show ?thesis
    unfolding Let_def by blast
qed

text \<open>
  The claim as stated fails in three places. A closing date in the year 50: the code
  takes 1 January 1950 as the start of the year, because \<^verbatim>\<open>Date.UTC\<close> reads the year 50
  as 1950, and counts no day where the specification counts 152. The first date of the
  range of \<^verbatim>\<open>Date\<close>, 20 April -271821, under the closing-date policy: 1 January of
  that year is no date, and the days accrued, the accrued amount and the total debit
  are \<^verbatim>\<open>NaN\<close> where the specification counts 110 days. A paid installment with a
  negative stored amount: the code counts it as zero where the specification adds it.
\<close>

theorem tax_proration_claim_counterexample:
  "(let closing = MakeDate (MakeDay 50 5 1) 0;
        tax = \<lparr>priorYearTax = 3650, springPaid = False, springPaidAmount = 0,
               fallPaid = False, fallPaidAmount = 0, prorateThrough = Closing_date,
               force365 = True\<rparr>
    in \<bar>closing\<bar> \<le> 8640000000000000 \<and> ymd (Some closing) = js ''50-06-01'' \<and>
       daysAccrued (calcIndianaTaxProration (Some closing) tax) = Some 0 \<and>
       daysAccrued (spec_prorate closing tax) = Some 152 \<and>
       calcIndianaTaxProration (Some closing) tax \<noteq> spec_prorate closing tax) \<and>
   (let closing = - 8640000000000000;
        tax = \<lparr>priorYearTax = 3650, springPaid = False, springPaidAmount = 0,
               fallPaid = False, fallPaidAmount = 0, prorateThrough = Closing_date,
               force365 = True\<rparr>
    in ymd (Some closing) = js ''-271821-04-20'' \<and>
       daysAccrued (calcIndianaTaxProration (Some closing) tax) = None \<and>
       accruedThisYear (calcIndianaTaxProration (Some closing) tax) = None \<and>
       totalDebit (calcIndianaTaxProration (Some closing) tax) = None \<and>
       daysAccrued (spec_prorate closing tax) = Some 110 \<and>
       calcIndianaTaxProration (Some closing) tax \<noteq> spec_prorate closing tax) \<and>
   (let closing = 1768003200000;
        tax = \<lparr>priorYearTax = 3650, springPaid = True, springPaidAmount = - 100,
               fallPaid = False, fallPaidAmount = 0, prorateThrough = Day_before,
               force365 = True\<rparr>
    in paidTotal (calcIndianaTaxProration (Some closing) tax) = 0 \<and>
       paidTotal (spec_prorate closing tax) = - 100 \<and>
       unpaidPriorYear (calcIndianaTaxProration (Some closing) tax) = 3650 \<and>
       unpaidPriorYear (spec_prorate closing tax) = 3750 \<and>
       calcIndianaTaxProration (Some closing) tax \<noteq> spec_prorate closing tax)"
  by code_simp

lemma accrued_flags:
  "accruedThisYear (calcIndianaTaxProration c (tax\<lparr>springPaid := b\<rparr>)) =
     accruedThisYear (calcIndianaTaxProration c tax)"
  "accruedThisYear (calcIndianaTaxProration c (tax\<lparr>fallPaid := b\<rparr>)) =
     accruedThisYear (calcIndianaTaxProration c tax)"
  by (simp_all add: calcIndianaTaxProration_def Let_def)

lemma debit_parts:
  "totalDebit (calcIndianaTaxProration c tax) =
     map_option (\<lambda>a. unpaidPriorYear (calcIndianaTaxProration c tax) + a)
       (accruedThisYear (calcIndianaTaxProration c tax))"
  by (simp add: calcIndianaTaxProration_def Let_def)

lemma unpaid_flags:
  "unpaidPriorYear (calcIndianaTaxProration c (tax\<lparr>springPaid := True\<rparr>)) \<le>
   unpaidPriorYear (calcIndianaTaxProration c (tax\<lparr>springPaid := False\<rparr>))"
  "unpaidPriorYear (calcIndianaTaxProration c (tax\<lparr>fallPaid := True\<rparr>)) \<le>
   unpaidPriorYear (calcIndianaTaxProration c (tax\<lparr>fallPaid := False\<rparr>))"
  by (simp_all add: calcIndianaTaxProration_def Let_def max_def)

lemma not_above_map:
  "u \<le> w \<Longrightarrow> not_above (map_option (\<lambda>a. u + a) x) (map_option (\<lambda>a. w + a) x)"
  by (cases x) (simp_all add: not_above_def)

lemma debit_spring:
  "not_above (totalDebit (calcIndianaTaxProration c (tax\<lparr>springPaid := True\<rparr>)))
     (totalDebit (calcIndianaTaxProration c (tax\<lparr>springPaid := False\<rparr>)))"
  unfolding debit_parts accrued_flags by (rule not_above_map) (rule unpaid_flags)

lemma debit_fall:
  "not_above (totalDebit (calcIndianaTaxProration c (tax\<lparr>fallPaid := True\<rparr>)))
     (totalDebit (calcIndianaTaxProration c (tax\<lparr>fallPaid := False\<rparr>)))"
  unfolding debit_parts accrued_flags by (rule not_above_map) (rule unpaid_flags)

lemma variants_agree: "calcIndianaTaxProration_v2 c tax = calcIndianaTaxProration c tax"
proof -
  have 1: "isLeapYear_v2 = isLeapYear"
    by (rule ext) (simp only: isLeapYear_def isLeapYear_v2_def)
  have 2: "addDaysUTC_v2 = addDaysUTC"
    by (rule ext)+ (simp only: addDaysUTC_def addDaysUTC_v2_def)
  have 3: "daysBetweenInclusiveUTC_v2 = daysBetweenInclusiveUTC"
    by (rule ext)+ (simp only: daysBetweenInclusiveUTC_def daysBetweenInclusiveUTC_v2_def)
  have 4: "ymd_v2 = ymd"
    by (rule ext) (simp only: ymd_def ymd_v2_def)
  show ?thesis
    by (simp only: calcIndianaTaxProration_def calcIndianaTaxProration_v2_def 1 2 3 4)
qed

lemma flag_unset:
  "\<not> springPaid tax \<Longrightarrow> tax\<lparr>springPaid := False\<rparr> = tax"
  "\<not> fallPaid tax \<Longrightarrow> tax\<lparr>fallPaid := False\<rparr> = tax"
  by simp_all

text \<open>
  C9. For every closing date, valid or not, and all settings, setting the paid flag of
  an installment that is not paid, with every amount and every other field as it was,
  never raises the total debit, in either variant: the debit after is at most the debit
  before, or both are \<^verbatim>\<open>NaN\<close>, which happens only when the dates give no day count.
\<close>

theorem paid_flag_never_raises_debit:
  "(\<not> springPaid tax \<longrightarrow>
      not_above (totalDebit (calcIndianaTaxProration closing (tax\<lparr>springPaid := True\<rparr>)))
        (totalDebit (calcIndianaTaxProration closing tax)) \<and>
      not_above (totalDebit (calcIndianaTaxProration_v2 closing (tax\<lparr>springPaid := True\<rparr>)))
        (totalDebit (calcIndianaTaxProration_v2 closing tax))) \<and>
   (\<not> fallPaid tax \<longrightarrow>
      not_above (totalDebit (calcIndianaTaxProration closing (tax\<lparr>fallPaid := True\<rparr>)))
        (totalDebit (calcIndianaTaxProration closing tax)) \<and>
      not_above (totalDebit (calcIndianaTaxProration_v2 closing (tax\<lparr>fallPaid := True\<rparr>)))
        (totalDebit (calcIndianaTaxProration_v2 closing tax)))"
proof (intro conjI impI)
  assume s: "\<not> springPaid tax"
  show "not_above (totalDebit (calcIndianaTaxProration closing (tax\<lparr>springPaid := True\<rparr>)))
      (totalDebit (calcIndianaTaxProration closing tax))"
    using debit_spring [of closing tax] by (simp only: flag_unset(1) [OF s])
  then show "not_above
      (totalDebit (calcIndianaTaxProration_v2 closing (tax\<lparr>springPaid := True\<rparr>)))
      (totalDebit (calcIndianaTaxProration_v2 closing tax))"
    by (simp only: variants_agree)
next
  assume f: "\<not> fallPaid tax"
  show "not_above (totalDebit (calcIndianaTaxProration closing (tax\<lparr>fallPaid := True\<rparr>)))
      (totalDebit (calcIndianaTaxProration closing tax))"
    using debit_fall [of closing tax] by (simp only: flag_unset(2) [OF f])
  then show "not_above
      (totalDebit (calcIndianaTaxProration_v2 closing (tax\<lparr>fallPaid := True\<rparr>)))
      (totalDebit (calcIndianaTaxProration_v2 closing tax))"
    by (simp only: variants_agree)
qed

text \<open>
  The witness follows the test at the end of the second file: closing on 10 January
  2026, prior-year tax 3650, a spring installment of 1000 that becomes paid. The same
  is done with a fall installment of 500.
\<close>

theorem paid_flag_never_raises_debit_witness:
  "(let closing = Date_UTC (Some 2026) (Some 0) (Some 10);
        tax = \<lparr>priorYearTax = 3650, springPaid = False, springPaidAmount = 1000,
               fallPaid = False, fallPaidAmount = 500, prorateThrough = Day_before,
               force365 = True\<rparr>
    in \<not> springPaid tax \<and> \<not> fallPaid tax \<and>
       not_above (totalDebit (calcIndianaTaxProration closing (tax\<lparr>springPaid := True\<rparr>)))
         (totalDebit (calcIndianaTaxProration closing tax)) \<and>
       not_above (totalDebit (calcIndianaTaxProration_v2 closing (tax\<lparr>fallPaid := True\<rparr>)))
         (totalDebit (calcIndianaTaxProration_v2 closing tax)) \<and>
       totalDebit (calcIndianaTaxProration closing tax) = Some 3740 \<and>
       totalDebit (calcIndianaTaxProration closing (tax\<lparr>springPaid := True\<rparr>)) = Some 2740 \<and>
       totalDebit (calcIndianaTaxProration_v2 closing tax) = Some 3740 \<and>
       totalDebit (calcIndianaTaxProration_v2 closing (tax\<lparr>fallPaid := True\<rparr>)) = Some 3240)"
proof -
  let ?c = "Date_UTC (Some 2026) (Some 0) (Some 10)"
  let ?t = "\<lparr>priorYearTax = 3650, springPaid = False, springPaidAmount = 1000,
               fallPaid = False, fallPaidAmount = 500, prorateThrough = Day_before,
               force365 = True\<rparr>"
  have h: "\<not> springPaid ?t" and g: "\<not> fallPaid ?t" by simp_all
  have a: "totalDebit (calcIndianaTaxProration ?c ?t) = Some 3740" by code_simp
  have b: "totalDebit (calcIndianaTaxProration ?c (?t\<lparr>springPaid := True\<rparr>)) = Some 2740"
    by code_simp
  have a2: "totalDebit (calcIndianaTaxProration_v2 ?c ?t) = Some 3740" by code_simp
  have b2: "totalDebit (calcIndianaTaxProration_v2 ?c (?t\<lparr>fallPaid := True\<rparr>)) = Some 3240"
    by code_simp
  note t = paid_flag_never_raises_debit [of ?t ?c]
  from t [THEN conjunct1, rule_format, OF h, THEN conjunct1]
  have s: "not_above (totalDebit (calcIndianaTaxProration ?c (?t\<lparr>springPaid := True\<rparr>)))
      (totalDebit (calcIndianaTaxProration ?c ?t))" .
  from t [THEN conjunct2, rule_format, OF g, THEN conjunct2]
  have f: "not_above (totalDebit (calcIndianaTaxProration_v2 ?c (?t\<lparr>fallPaid := True\<rparr>)))
      (totalDebit (calcIndianaTaxProration_v2 ?c ?t))" .
  from h g s f a b a2 b2 show ?thesis
    unfolding Let_def by (intro conjI)
qed

text \<open>
  C10. The tax proration functions of the two files return the same breakdown, field
  for field, for every closing date, valid or not, and all settings.
\<close>

theorem tax_proration_variants_agree:
  "calcIndianaTaxProration closing tax = calcIndianaTaxProration_v2 closing tax"
proof -
  have 1: "isLeapYear_v2 = isLeapYear"
    by (rule ext) (simp only: isLeapYear_def isLeapYear_v2_def)
  have 2: "addDaysUTC_v2 = addDaysUTC"
    by (rule ext)+ (simp only: addDaysUTC_def addDaysUTC_v2_def)
  have 3: "daysBetweenInclusiveUTC_v2 = daysBetweenInclusiveUTC"
    by (rule ext)+ (simp only: daysBetweenInclusiveUTC_def daysBetweenInclusiveUTC_v2_def)
  have 4: "ymd_v2 = ymd"
    by (rule ext) (simp only: ymd_def ymd_v2_def)
  show ?thesis
    by (simp only: calcIndianaTaxProration_def calcIndianaTaxProration_v2_def 1 2 3 4)
qed

theorem tax_proration_variants_agree_witness:
  "calcIndianaTaxProration_v2 (Date_UTC (Some 2024) (Some 1) (Some 29))
     \<lparr>priorYearTax = 3200, springPaid = True, springPaidAmount = 1600,
      fallPaid = False, fallPaidAmount = 1600, prorateThrough = Closing_date,
      force365 = False\<rparr> =
   \<lparr>prorationEndYMD = js ''2024-02-29'', daysInYear = 366, dailyRate = 3200 / 366,
    daysAccrued = Some 60, accruedThisYear = Some (3200 / 366 * 60), paidTotal = 1600,
    unpaidPriorYear = 1600, totalDebit = Some (1600 + 3200 / 366 * 60)\<rparr>"
proof -
  have "calcIndianaTaxProration (Date_UTC (Some 2024) (Some 1) (Some 29))
     \<lparr>priorYearTax = 3200, springPaid = True, springPaidAmount = 1600,
      fallPaid = False, fallPaidAmount = 1600, prorateThrough = Closing_date,
      force365 = False\<rparr> =
   \<lparr>prorationEndYMD = js ''2024-02-29'', daysInYear = 366, dailyRate = 3200 / 366,
    daysAccrued = Some 60, accruedThisYear = Some (3200 / 366 * 60), paidTotal = 1600,
    unpaidPriorYear = 1600, totalDebit = Some (1600 + 3200 / 366 * 60)\<rparr>"
    by code_simp
  then show ?thesis
    by (simp only: tax_proration_variants_agree)
qed

section \<open>Properties of the number parser\<close>

lemmas parse_defs = parseNumber_def Number_def trim_def is_space_def js_def radix_literal_def
  unsigned_decimal_def exponent_part_def digits_in_base_def digit_in_base_def is_digit_def
  pow10_def round_result_def Let_def

lemma pow10_pos: "0 < pow10 e"
  by (simp add: pow10_def)

lemma unsigned_decimal_nonneg: "unsigned_decimal u = Some mv \<Longrightarrow> 0 \<le> mv"
  using pow10_pos [of e for e]
  by (auto simp: unsigned_decimal_def Let_def less_imp_le split: if_splits option.splits)

lemma round_result_nonneg: "0 \<le> mv \<Longrightarrow> round_result mv = Finite x \<Longrightarrow> 0 \<le> x"
  by (auto simp: round_result_def split: if_splits)

lemma set_trim: "set (trim s) \<subseteq> set s"
proof -
  have "set (trim s) \<subseteq> set (dropWhile is_space s)"
    using set_dropWhileD [of _ is_space "rev (dropWhile is_space s)"]
    by (auto simp: trim_def)
  also have "\<dots> \<subseteq> set s"
    using set_dropWhileD [of _ is_space s] by auto
  finally show ?thesis .
qed

lemma Number_nonneg:
  assumes "45 \<notin> set s" "Number s = Finite x"
  shows "0 \<le> x"
proof (cases "trim s = []")
  case True
  with assms(2) show ?thesis by (simp add: Number_def)
next
  case False
  then have "hd (trim s) \<in> set (trim s)" by simp
  with set_trim [of s] assms(1) have h: "hd (trim s) \<noteq> 45" by auto
  show ?thesis
  proof (cases "radix_literal (trim s)")
    case (Some v)
    with False assms(2) have "round_result (of_nat v) = Finite x"
      by (simp add: Number_def)
    then show ?thesis by (rule round_result_nonneg [rotated]) simp
  next
    case None
    define u where "u = (if hd (trim s) = 43 then tl (trim s) else trim s)"
    have "Number s = (if u = js ''Infinity'' then PosInfinity
        else case unsigned_decimal u of None \<Rightarrow> NaN | Some mv \<Rightarrow> round_result mv)"
    proof (cases "hd (trim s) = 43")
      case True
      with None False h show ?thesis
        by (simp add: Number_def Let_def u_def split: option.split)
    next
      case plus: False
      with None False h show ?thesis
        by (simp add: Number_def Let_def u_def split: option.split)
    qed
    with assms(2) have n: "(if u = js ''Infinity'' then PosInfinity
        else case unsigned_decimal u of None \<Rightarrow> NaN | Some mv \<Rightarrow> round_result mv) = Finite x"
      by simp
    then obtain mv where mv: "unsigned_decimal u = Some mv" "round_result mv = Finite x"
      by (auto split: if_splits option.splits)
    from mv(1) have "0 \<le> mv" by (rule unsigned_decimal_nonneg)
    then show ?thesis using mv(2) by (rule round_result_nonneg)
  qed
qed

lemma parseNumber_nonneg:
  assumes "45 \<notin> set s"
  shows "0 \<le> parseNumber s"
proof -
  define cleaned where "cleaned = filter (\<lambda>c. \<not> (c = 36 \<or> c = 44 \<or> is_space c)) s"
  from assms have c: "45 \<notin> set cleaned" by (simp add: cleaned_def)
  have p: "parseNumber s = (case Number cleaned of Finite x \<Rightarrow> x | _ \<Rightarrow> 0)"
    by (simp add: parseNumber_def cleaned_def)
  show ?thesis
  proof (cases "Number cleaned")
    case (Finite x)
    with c have "0 \<le> x" by (rule Number_nonneg)
    with Finite p show ?thesis by simp
  qed (simp_all add: p)
qed

lemma formatInputMoney_no_minus: "45 \<notin> set (formatInputMoney s)"
  by (auto simp: formatInputMoney_def is_digit_def)

lemma formatInputPercent_no_minus: "45 \<notin> set (formatInputPercent s)"
  by (auto simp: formatInputPercent_def is_digit_def)

lemma digit_in_base_numeric: "digit_in_base b c \<noteq> None \<Longrightarrow> numeric_unit c"
proof -
  assume "digit_in_base b c \<noteq> None"
  then have "(48 \<le> c \<and> c \<le> 57) \<or> (97 \<le> c \<and> c \<le> 102) \<or> (65 \<le> c \<and> c \<le> 70)"
    by (auto simp: digit_in_base_def Let_def split: if_splits)
  then have "is_digit c \<or> c \<in> {97, 98, 99, 100, 101, 102} \<or> c \<in> {65, 66, 67, 68, 69, 70}"
    unfolding is_digit_def by (elim disjE; auto)
  then show ?thesis
    by (auto simp: numeric_unit_def js_def)
qed

lemma digits_in_base_numeric:
  "digits_in_base b s = Some v \<Longrightarrow> c \<in> set s \<Longrightarrow> numeric_unit c"
proof -
  assume v: "digits_in_base b s = Some v" and c: "c \<in> set s"
  from v have "list_all (\<lambda>c. digit_in_base b c \<noteq> None) s"
    by (simp add: digits_in_base_def split: if_splits)
  with c have "digit_in_base b c \<noteq> None" by (simp add: list_all_iff)
  then show "numeric_unit c" by (rule digit_in_base_numeric)
qed

lemma numeric_unit_simps:
  "is_digit c \<Longrightarrow> numeric_unit c"
  "numeric_unit 43" "numeric_unit 45" "numeric_unit 46" "numeric_unit 101" "numeric_unit 69"
  "numeric_unit 48" "numeric_unit 120" "numeric_unit 88" "numeric_unit 111" "numeric_unit 79"
  "numeric_unit 98" "numeric_unit 66"
  by (simp_all add: numeric_unit_def js_def is_digit_def)

lemma exponent_part_numeric:
  assumes "exponent_part s = Some e" "c \<in> set s"
  shows "numeric_unit c"
proof (cases s)
  case Nil
  with assms show ?thesis by simp
next
  case (Cons x r)
  with assms(1) have x: "x = 101 \<or> x = 69"
    by (auto simp: exponent_part_def split: if_splits)
  define ds where "ds = (if r \<noteq> [] \<and> (hd r = 43 \<or> hd r = 45) then tl r else r)"
  from assms(1) Cons x obtain n where n: "digits_in_base 10 ds = Some n"
    by (auto simp: exponent_part_def Let_def ds_def split: option.splits)
  have r: "numeric_unit d" if "d \<in> set r" for d
  proof (cases "r \<noteq> [] \<and> (hd r = 43 \<or> hd r = 45)")
    case True
    then have "r = hd r # ds" by (simp add: ds_def)
    with that have "d = hd r \<or> d \<in> set ds" by (metis set_ConsD)
    with True n show ?thesis
      by (auto intro: digits_in_base_numeric numeric_unit_simps)
  next
    case False
    then have "ds = r" by (auto simp: ds_def)
    with that n show ?thesis by (auto intro: digits_in_base_numeric)
  qed
  from assms(2) Cons have "c = x \<or> c \<in> set r" by simp
  with x r show ?thesis by (auto intro: numeric_unit_simps)
qed

lemma unsigned_decimal_numeric:
  assumes "unsigned_decimal s = Some mv" "c \<in> set s"
  shows "numeric_unit c"
proof -
  define ip where "ip = takeWhile is_digit s"
  define r where "r = dropWhile is_digit s"
  have s: "s = ip @ r" by (simp add: ip_def r_def)
  have ip: "numeric_unit d" if "d \<in> set ip" for d
    using that set_takeWhileD [of d is_digit s] by (auto simp: ip_def intro: numeric_unit_simps)
  have "numeric_unit d" if d: "d \<in> set r" for d
  proof (cases "r \<noteq> [] \<and> hd r = 46")
    case True
    define fp where "fp = takeWhile is_digit (tl r)"
    define r2 where "r2 = dropWhile is_digit (tl r)"
    from True have "r = 46 # fp @ r2"
      by (cases r) (simp_all add: fp_def r2_def)
    with d have cases: "d = 46 \<or> d \<in> set fp \<or> d \<in> set r2" by auto
    have fp: "numeric_unit x" if "x \<in> set fp" for x
      using that set_takeWhileD [of x is_digit "tl r"]
      by (auto simp: fp_def intro: numeric_unit_simps)
    from assms(1) True obtain e where "exponent_part r2 = Some e"
      by (auto simp: unsigned_decimal_def Let_def r_def r2_def split: if_splits option.splits)
    then have "numeric_unit x" if "x \<in> set r2" for x
      using that by (rule exponent_part_numeric)
    with cases fp show ?thesis by (auto intro: numeric_unit_simps)
  next
    case False
    with assms(1) obtain e where "exponent_part r = Some e"
      by (auto simp: unsigned_decimal_def Let_def r_def split: if_splits option.splits)
    then show ?thesis using d by (rule exponent_part_numeric)
  qed
  with ip s assms(2) show ?thesis by auto
qed

lemma radix_literal_numeric:
  assumes "radix_literal s = Some v" "c \<in> set s"
  shows "numeric_unit c"
proof -
  from assms(1) obtain p r b where s: "s = 48 # p # r"
    and p: "p \<in> {120, 88, 111, 79, 98, 66}" and d: "digits_in_base b r = Some v"
    by (auto simp: radix_literal_def split: list.splits if_splits)
  from s assms(2) have "c = 48 \<or> c = p \<or> c \<in> set r" by auto
  with p d show ?thesis
    by (auto intro: numeric_unit_simps digits_in_base_numeric)
qed

lemma Infinity_numeric: "c \<in> set (js ''Infinity'') \<Longrightarrow> numeric_unit c"
  by (auto simp: numeric_unit_def js_def)

lemma Number_finite_numeric:
  assumes "Number s = Finite x" "c \<in> set (trim s)"
  shows "numeric_unit c"
proof -
  define t where "t = trim s"
  from assms(2) have ne: "t \<noteq> []" and c: "c \<in> set t" by (auto simp: t_def)
  show ?thesis
  proof (cases "radix_literal t")
    case (Some v)
    then show ?thesis using c by (rule radix_literal_numeric)
  next
    case None
    define u where "u = (if hd t = 43 \<or> hd t = 45 then tl t else t)"
    from ne have "t = hd t # tl t" by simp
    with c have "c = hd t \<or> c \<in> set (tl t)" by (metis set_ConsD)
    then have cu: "c \<in> set u \<or> c = 43 \<or> c = 45"
      using c by (auto simp: u_def)
    from assms(1) None ne have "u \<noteq> js ''Infinity''"
      by (auto simp: Number_def Let_def t_def u_def split: if_splits)
    with assms(1) None ne obtain mv where "unsigned_decimal u = Some mv"
      by (auto simp: Number_def Let_def t_def u_def split: if_splits option.splits)
    then have "numeric_unit d" if "d \<in> set u" for d
      using that by (rule unsigned_decimal_numeric)
    with cu show ?thesis by (auto intro: numeric_unit_simps)
  qed
qed

lemma trim_no_space: "\<forall>c \<in> set s. \<not> is_space c \<Longrightarrow> trim s = s"
proof -
  assume a: "\<forall>c \<in> set s. \<not> is_space c"
  have d: "dropWhile is_space xs = xs" if "\<forall>c \<in> set xs. \<not> is_space c" for xs
    using that by (cases xs) simp_all
  from a have "dropWhile is_space s = s" by (rule d)
  moreover from a have "dropWhile is_space (rev s) = rev s" by (intro d) simp
  ultimately show ?thesis by (simp add: trim_def)
qed

text \<open>A string with a code unit that no numeric literal has parses to 0.\<close>

lemma parseNumber_foreign_unit:
  assumes "c \<in> set s" "\<not> numeric_unit c" "c \<noteq> 36" "c \<noteq> 44" "\<not> is_space c"
  shows "parseNumber s = 0"
proof -
  define cleaned where "cleaned = filter (\<lambda>c. \<not> (c = 36 \<or> c = 44 \<or> is_space c)) s"
  have "trim cleaned = cleaned"
    by (rule trim_no_space) (simp add: cleaned_def)
  moreover from assms have "c \<in> set cleaned" by (simp add: cleaned_def)
  ultimately have "c \<in> set (trim cleaned)" by simp
  with assms(2) have n: "Number cleaned \<noteq> Finite x" for x
    by (auto dest: Number_finite_numeric)
  have p: "parseNumber s = (case Number cleaned of Finite x \<Rightarrow> x | _ \<Rightarrow> 0)"
    by (simp add: parseNumber_def cleaned_def)
  show ?thesis
  proof (cases "Number cleaned")
    case (Finite x)
    with n show ?thesis by blast
  qed (simp_all add: p)
qed

text \<open>
  C6, as the code has it. \<open>parseNumber\<close> is a total function into the finite numbers: for
  every string it returns a number, and it returns 0 whenever \<^verbatim>\<open>Number\<close> gives
  \<^verbatim>\<open>NaN\<close> or an infinity for the cleaned string. That is so for the empty string, for
  every string with a character that no numeric literal has (other than the dollar
  sign, the comma and white space, which are removed), for text that is not a literal
  and for a literal too large to be finite. The result is not negative when the string
  has no minus sign, and so for every string that went through \<open>formatInputMoney\<close> or
  \<open>formatInputPercent\<close>, as each field of the form does.
\<close>

theorem parseNumber_total_and_sign:
  "(\<forall>s. 45 \<notin> set s \<longrightarrow> 0 \<le> parseNumber s) \<and>
   (\<forall>s. 0 \<le> parseNumber (formatInputMoney s) \<and> 0 \<le> parseNumber (formatInputPercent s)) \<and>
   (\<forall>s. Number (filter (\<lambda>c. \<not> (c = 36 \<or> c = 44 \<or> is_space c)) s)
          \<in> {NaN, PosInfinity, NegInfinity} \<longrightarrow> parseNumber s = 0) \<and>
   (\<forall>s c. c \<in> set s \<longrightarrow> \<not> numeric_unit c \<longrightarrow> c \<noteq> 36 \<longrightarrow> c \<noteq> 44 \<longrightarrow> \<not> is_space c \<longrightarrow>
      parseNumber s = 0) \<and>
   parseNumber (js '''') = 0 \<and> parseNumber (js ''   '') = 0 \<and>
   parseNumber (js ''abc'') = 0 \<and> parseNumber (js ''12abc'') = 0 \<and>
   parseNumber (js ''1.2.3'') = 0 \<and> parseNumber (js ''Infinity'') = 0 \<and>
   parseNumber (js ''1e400'') = 0 \<and>
   parseNumber (js ''330,000'') = 330000 \<and> parseNumber (js '' $1,234.50 '') = 1234.50"
proof (intro conjI allI impI)
  fix s
  show "0 \<le> parseNumber (formatInputMoney s)"
    by (rule parseNumber_nonneg) (rule formatInputMoney_no_minus)
  show "0 \<le> parseNumber (formatInputPercent s)"
    by (rule parseNumber_nonneg) (rule formatInputPercent_no_minus)
  assume "45 \<notin> set s"
  then show "0 \<le> parseNumber s" by (rule parseNumber_nonneg)
next
  fix s
  assume "Number (filter (\<lambda>c. \<not> (c = 36 \<or> c = 44 \<or> is_space c)) s)
      \<in> {NaN, PosInfinity, NegInfinity}"
  then show "parseNumber s = 0"
    by (auto simp: parseNumber_def)
next
  fix s :: jsstring and c
  assume "c \<in> set s" "\<not> numeric_unit c" "c \<noteq> 36" "c \<noteq> 44" "\<not> is_space c"
  then show "parseNumber s = 0" by (rule parseNumber_foreign_unit)
next
  show "parseNumber (js '''') = 0" by (simp add: parse_defs)
  show "parseNumber (js ''   '') = 0" by (simp add: parse_defs)
  show "parseNumber (js ''abc'') = 0" by (simp add: parse_defs)
  show "parseNumber (js ''12abc'') = 0" by (simp add: parse_defs)
  show "parseNumber (js ''1.2.3'') = 0" by (simp add: parse_defs)
  show "parseNumber (js ''Infinity'') = 0" by (simp add: parse_defs)
  show "parseNumber (js ''1e400'') = 0" by (simp add: parse_defs)
  show "parseNumber (js ''330,000'') = 330000" by (simp add: parse_defs)
  show "parseNumber (js '' $1,234.50 '') = 1234.50" by (simp add: parse_defs)
qed

theorem parseNumber_total_and_sign_witness:
  "45 \<notin> set (js ''$ 2,500.75'') \<and> 0 \<le> parseNumber (js ''$ 2,500.75'') \<and>
   parseNumber (js ''$ 2,500.75'') = 2500.75 \<and>
   Number (filter (\<lambda>c. \<not> (c = 36 \<or> c = 44 \<or> is_space c)) (js ''1.2.3''))
     \<in> {NaN, PosInfinity, NegInfinity} \<and>
   parseNumber (js ''1.2.3'') = 0 \<and>
   112 \<in> set (js ''$12 per day'') \<and> \<not> numeric_unit 112 \<and> \<not> is_space 112 \<and>
   parseNumber (js ''$12 per day'') = 0"
proof -
  have a: "45 \<notin> set (js ''$ 2,500.75'')" by (simp add: js_def)
  have b: "parseNumber (js ''$ 2,500.75'') = 2500.75" by (simp add: parse_defs)
  have c: "Number (filter (\<lambda>c. \<not> (c = 36 \<or> c = 44 \<or> is_space c)) (js ''1.2.3''))
     \<in> {NaN, PosInfinity, NegInfinity}" by (simp add: parse_defs)
  have d: "112 \<in> set (js ''$12 per day'')" "\<not> numeric_unit 112" "(112 :: nat) \<noteq> 36"
    "(112 :: nat) \<noteq> 44" "\<not> is_space 112"
    by (simp_all add: js_def numeric_unit_def is_digit_def is_space_def)
  note t = parseNumber_total_and_sign
  from t [THEN conjunct1, rule_format, OF a]
    t [THEN conjunct2, THEN conjunct2, THEN conjunct1, rule_format, OF c]
    t [THEN conjunct2, THEN conjunct2, THEN conjunct2, THEN conjunct1, rule_format, OF d]
    a b c d
  show ?thesis by blast
qed

text \<open>
  The claim as stated fails on a string with a minus sign: \<^verbatim>\<open>parseNumber("-5")\<close> is -5.
\<close>

theorem parseNumber_negative_counterexample:
  "parseNumber (js ''-5'') = - 5 \<and> parseNumber (js ''-5'') < 0 \<and>
   parseNumber (js ''-$1,250.50'') = - 1250.50"
  by (simp add: parse_defs)

end
